theory Spec2Isabelle
  imports Complex_Main
begin

section \<open>Random walker simulation: walker, plane and simulation loop\<close>

text \<open>
  The Python program works on floats; coordinates, distances and sums are modelled as
  real numbers, with the same operations applied in the same order. Exceptions are values
  of the type \<open>error\<close>; a function that may raise returns \<open>error + 'a\<close>.
\<close>

type_synonym point = "real \<times> real"

datatype error = ValueError | AttributeError | IndexError | ZeroDivisionError

subsection \<open>walker.py\<close>

definition NORMAL_WALKER :: int where
  "NORMAL_WALKER = 1"

definition UNEVEN_STEP_WALKER :: int where
  "UNEVEN_STEP_WALKER = 2"

definition DISCRETE_WALKER :: int where
  "DISCRETE_WALKER = 3"

definition UNEVEN_DISTRIBUTION_WALKER :: int where
  "UNEVEN_DISTRIBUTION_WALKER = 4"

definition ACCEPTABLE_WALKER_TYPES :: "int set" where
  "ACCEPTABLE_WALKER_TYPES =
     {NORMAL_WALKER, UNEVEN_STEP_WALKER, DISCRETE_WALKER, UNEVEN_DISTRIBUTION_WALKER}"

text \<open>
  The attributes of class Walker. The weights are whatever sequence the caller passed:
  the constructor stores it unchecked, so it is a list of any length.
\<close>

record walker =
  walker_x :: real
  walker_y :: real
  steps :: nat
  path :: "point list"
  weights :: "int list"
  walker_type :: int

text \<open>\<open>Walker.__init__\<close>: the only check is the one on the walker type.\<close>

definition Walker_init :: "int \<Rightarrow> int list \<Rightarrow> error + walker" where
  "Walker_init wt ws =
     (if wt \<notin> ACCEPTABLE_WALKER_TYPES then Inl ValueError
      else Inr \<lparr>walker_x = 0, walker_y = 0, steps = 0, path = [(0, 0)],
                weights = ws, walker_type = wt\<rparr>)"

text \<open>The default value of the parameter \<open>weights\<close>.\<close>

definition default_weights :: "int list" where
  "default_weights = [1, 1, 1, 1, 1]"

text \<open>
  The random draws of one call of \<open>get_next_move\<close>: the angle returned by
  \<open>random.uniform(0, 2*pi)\<close>, the step length returned by \<open>random.uniform(0.5, 1.5)\<close>
  and the number the generator selects an element with.
\<close>

record rnd =
  angle :: real
  step_len :: real
  pick :: nat

text \<open>
  \<open>random.choice(seq)\<close> returns \<open>seq[i]\<close> for an index \<open>i\<close> below \<open>len(seq)\<close>;
  the index is the generator's number reduced below the length.
\<close>

definition random_choice :: "'a list \<Rightarrow> nat \<Rightarrow> 'a" where
  "random_choice xs r = xs ! (r mod length xs)"

text \<open>
  \<open>random.choices(population, weights=ws, k=1)[0]\<close> raises ValueError when the number of
  weights differs from the number of choices or when the weights do not sum to a positive
  number, and returns an element of the population otherwise. Which element the weights
  favour is not modelled: every element is a possible result.
\<close>

definition random_choices :: "'a list \<Rightarrow> int list \<Rightarrow> nat \<Rightarrow> error + 'a" where
  "random_choices xs ws r =
     (if length ws \<noteq> length xs then Inl ValueError
      else if sum_list ws \<le> 0 then Inl ValueError
      else Inr (xs ! (r mod length xs)))"

definition get_next_move :: "walker \<Rightarrow> rnd \<Rightarrow> error + point" where
  "get_next_move w r =
     (if walker_type w = NORMAL_WALKER then
        Inr (cos (angle r), sin (angle r))
      else if walker_type w = UNEVEN_STEP_WALKER then
        Inr (step_len r * cos (angle r), step_len r * sin (angle r))
      else if walker_type w = DISCRETE_WALKER then
        Inr (random_choice [(0, 1), (0, -1), (1, 0), (-1, 0)] (pick r))
      else if walker_type w = UNEVEN_DISTRIBUTION_WALKER then
        random_choices [(0, 1), (0, -1), (1, 0), (-1, 0), (- walker_x w, - walker_y w)]
          (weights w) (pick r)
      else Inl ValueError)"

definition move :: "walker \<Rightarrow> real \<Rightarrow> real \<Rightarrow> walker" where
  "move w dx dy =
     w\<lparr>walker_x := walker_x w + dx,
       walker_y := walker_y w + dy,
       steps := steps w + 1,
       path := path w @ [(walker_x w + dx, walker_y w + dy)]\<rparr>"

definition get_position :: "walker \<Rightarrow> point" where
  "get_position w = (walker_x w, walker_y w)"

definition set_position :: "walker \<Rightarrow> real \<Rightarrow> real \<Rightarrow> walker" where
  "set_position w px py = w\<lparr>walker_x := px, walker_y := py\<rparr>"

definition get_distance :: "walker \<Rightarrow> real" where
  "get_distance w = sqrt (\<bar>walker_x w\<bar> ^ 2 + \<bar>walker_y w\<bar> ^ 2)"

definition get_walker_type :: "walker \<Rightarrow> int" where
  "get_walker_type w = walker_type w"

definition get_steps :: "walker \<Rightarrow> nat" where
  "get_steps w = steps w"

definition get_path :: "walker \<Rightarrow> point list" where
  "get_path w = path w"

text \<open>A sequence of committed moves: \<open>move\<close> called once for each displacement, in order.\<close>

fun moves :: "walker \<Rightarrow> point list \<Rightarrow> walker" where
  "moves w [] = w"
| "moves w (d # ds) = moves (move w (fst d) (snd d)) ds"

text \<open>The invariant of the data model: the path has one entry more than the step count,
  and its last entry is the current position.\<close>

definition walker_inv :: "walker \<Rightarrow> bool" where
  "walker_inv w \<longleftrightarrow>
     length (get_path w) = get_steps w + 1 \<and> get_position w = last (get_path w)"

subsection \<open>plane.py\<close>

record obstacle =
  obstacle_start :: point
  obstacle_end :: point

record portal =
  portal_start :: point
  portal_end :: point
  portal_destination :: point

text \<open>
  The obstacles and the portals of class Plane, in insertion order. The list of walkers
  is left out: no function modelled here reads it.
\<close>

record plane =
  obstacles :: "obstacle list"
  portals :: "portal list"

definition Plane_init :: plane where
  "Plane_init = \<lparr>obstacles = [], portals = []\<rparr>"

definition add_obstacle :: "plane \<Rightarrow> obstacle \<Rightarrow> plane" where
  "add_obstacle pl ob = pl\<lparr>obstacles := obstacles pl @ [ob]\<rparr>"

definition add_portal :: "plane \<Rightarrow> portal \<Rightarrow> plane" where
  "add_portal pl po = pl\<lparr>portals := portals pl @ [po]\<rparr>"

text \<open>
  The geometry library is not part of the program. What \<open>path.intersection(line)\<close>
  returns for two line strings is a parameter of the model: the empty geometry, a single
  point, or another geometry (the common stretch of two overlapping collinear segments),
  which has no attributes \<open>x\<close> and \<open>y\<close>. The first argument is the path from the
  current to the next position, the second the segment of the obstacle or portal.
\<close>

datatype geometry = Empty | PointGeom point | OtherGeom

type_synonym intersection_fn = "point \<times> point \<Rightarrow> point \<times> point \<Rightarrow> geometry"

text \<open>\<open>Point(p).distance(Point(q))\<close>: the Euclidean distance.\<close>

definition distance :: "point \<Rightarrow> point \<Rightarrow> real" where
  "distance p q = sqrt ((fst p - fst q) ^ 2 + (snd p - snd q) ^ 2)"

datatype intersected = ObstacleObj obstacle | PortalObj portal

text \<open>
  The result of \<open>check_intersection\<close>: the next position, or the pair of the type string
  and the intersected object.
\<close>

datatype resolution = NextPosition point | Intersected string intersected

text \<open>
  The variables of the scan. \<open>min_distance\<close> starts as \<open>float('inf')\<close>, which is
  \<open>None\<close> here: every distance is smaller. \<open>intersected_type\<close> and
  \<open>intersected_object\<close> are assigned together and are one optional pair.
\<close>

record scan =
  min_distance :: "real option"
  intersected :: "(string \<times> intersected) option"

definition less_than_min :: "real \<Rightarrow> real option \<Rightarrow> bool" where
  "less_than_min d m = (case m of None \<Rightarrow> True | Some md \<Rightarrow> d < md)"

text \<open>The loop over the obstacles. Reading \<open>intersection.x\<close> of a geometry that is not a
  point raises AttributeError.\<close>

fun scan_obstacles ::
  "intersection_fn \<Rightarrow> point \<Rightarrow> point \<Rightarrow> obstacle list \<Rightarrow> scan \<Rightarrow> error + scan" where
  "scan_obstacles isect cur nxt [] s = Inr s"
| "scan_obstacles isect cur nxt (ob # obs) s =
     (case isect (cur, nxt) (obstacle_start ob, obstacle_end ob) of
        Empty \<Rightarrow> scan_obstacles isect cur nxt obs s
      | OtherGeom \<Rightarrow> Inl AttributeError
      | PointGeom p \<Rightarrow>
          if less_than_min (distance cur p) (min_distance s)
          then scan_obstacles isect cur nxt obs
                 \<lparr>min_distance = Some (distance cur p),
                  intersected = Some (''obstacle'', ObstacleObj ob)\<rparr>
          else scan_obstacles isect cur nxt obs s)"

text \<open>The loop over the portals, which continues with the minimum of the first loop.\<close>

fun scan_portals ::
  "intersection_fn \<Rightarrow> point \<Rightarrow> point \<Rightarrow> portal list \<Rightarrow> scan \<Rightarrow> error + scan" where
  "scan_portals isect cur nxt [] s = Inr s"
| "scan_portals isect cur nxt (po # pos) s =
     (case isect (cur, nxt) (portal_start po, portal_end po) of
        Empty \<Rightarrow> scan_portals isect cur nxt pos s
      | OtherGeom \<Rightarrow> Inl AttributeError
      | PointGeom p \<Rightarrow>
          if less_than_min (distance cur p) (min_distance s)
          then scan_portals isect cur nxt pos
                 \<lparr>min_distance = Some (distance cur p),
                  intersected = Some (''portal'', PortalObj po)\<rparr>
          else scan_portals isect cur nxt pos s)"

definition check_intersection ::
  "intersection_fn \<Rightarrow> plane \<Rightarrow> point \<Rightarrow> point \<Rightarrow> error + resolution" where
  "check_intersection isect pl current_position next_position =
     (case scan_obstacles isect current_position next_position (obstacles pl)
             \<lparr>min_distance = None, intersected = None\<rparr> of
        Inl e \<Rightarrow> Inl e
      | Inr s1 \<Rightarrow>
          (case scan_portals isect current_position next_position (portals pl) s1 of
             Inl e \<Rightarrow> Inl e
           | Inr s2 \<Rightarrow>
               (case intersected s2 of
                  None \<Rightarrow> Inr (NextPosition next_position)
                | Some (ty, ob) \<Rightarrow> Inr (Intersected ty ob))))"

subsection \<open>utils.py\<close>

definition UP :: point where
  "UP = (0, 1)"

definition DOWN :: point where
  "DOWN = (0, -1)"

definition RIGHT :: point where
  "RIGHT = (1, 0)"

definition LEFT :: point where
  "LEFT = (-1, 0)"

text \<open>The test \<open>isinstance(intersection, tuple) and isinstance(intersection[1], Obstacle)\<close>:
  a probe that fails it is a possible move.\<close>

definition is_obstacle_hit :: "resolution \<Rightarrow> bool" where
  "is_obstacle_hit r =
     (case r of
        NextPosition p \<Rightarrow> False
      | Intersected ty ob \<Rightarrow> (case ob of ObstacleObj o1 \<Rightarrow> True | PortalObj p1 \<Rightarrow> False))"

text \<open>The body shared by the two loops of \<open>has_possible_moves\<close>: probe each move from
  the current position and return True at the first one that is not an obstacle hit.\<close>

fun check_moves ::
  "intersection_fn \<Rightarrow> plane \<Rightarrow> point \<Rightarrow> point list \<Rightarrow> error + bool" where
  "check_moves isect pl cur [] = Inr False"
| "check_moves isect pl cur (m # ms) =
     (case check_intersection isect pl cur (fst cur + fst m, snd cur + snd m) of
        Inl e \<Rightarrow> Inl e
      | Inr r \<Rightarrow> if \<not> is_obstacle_hit r then Inr True else check_moves isect pl cur ms)"

definition possible_moves :: "walker \<Rightarrow> point list" where
  "possible_moves w =
     [UP, DOWN, RIGHT, LEFT, (- fst (get_position w), - snd (get_position w))]"

text \<open>The directions of the second loop: \<open>angles k\<close> is the angle drawn in its
  iteration \<open>k\<close>, for \<open>k\<close> in \<open>range(100)\<close>.\<close>

definition random_directions :: "(nat \<Rightarrow> real) \<Rightarrow> point list" where
  "random_directions angles = map (\<lambda>k. (cos (angles k), sin (angles k))) [0..<100]"

definition has_possible_moves ::
  "intersection_fn \<Rightarrow> walker \<Rightarrow> plane \<Rightarrow> (nat \<Rightarrow> real) \<Rightarrow> error + bool" where
  "has_possible_moves isect w pl angles =
     (case check_moves isect pl (get_position w) (possible_moves w) of
        Inl e \<Rightarrow> Inl e
      | Inr True \<Rightarrow> Inr True
      | Inr False \<Rightarrow>
          if get_walker_type w \<in> set [1, 2]
          then check_moves isect pl (get_position w) (random_directions angles)
          else Inr False)"

subsection \<open>simulation.py\<close>

text \<open>The fields of the argument namespace that \<open>run_simulation\<close> reads. An absent
  list of portals or obstacles and an empty one are treated alike by the program.\<close>

record args =
  arg_walker_type :: int
  arg_steps :: int
  arg_simulations :: int
  arg_n_steps :: int
  arg_portals :: "(point \<times> point \<times> point) list"
  arg_obstacles :: "(point \<times> point) list"
  arg_weights :: "int list option"

text \<open>A per-step statistics record, and the per-run record.\<close>

record step_stats =
  avg_distance_from_x_axis :: real
  avg_distance_from_y_axis :: real
  avg_distance_from_origin :: real

record run_stats =
  number_of_steps_to_exit :: nat
  time_to_exit :: "real option"
  number_of_times_crossed_y_axis :: nat
  avg_distance_from_origin_after_N :: real
  avg_distance_from_x_axis_after_N :: real
  avg_distance_from_y_axis_after_N :: real
  number_of_unsuccessful_moves :: nat

text \<open>
  The local variables of \<open>run_simulation\<close>: the totals over the runs, then the variables
  of the current run. (\<open>total_y_axis_cross_count\<close> is never used after its
  initialisation and is left out.)
\<close>

record state =
  multi_simulation_stats :: "(nat \<times> run_stats \<times> (nat \<times> step_stats) list) list"
  total_distance_from_origin :: real
  total_exit_time :: real
  total_distance_from_x_axis :: real
  total_distance_from_y_axis :: real
  total_steps_to_exit :: nat
  total_y_axis_crosses :: nat
  total_unsuccessful_moves :: nat
  simulation_stats :: "(nat \<times> step_stats) list"
  simulation_distance_from_origin :: real
  simulation_exit_time :: "real option"
  simulation_distance_from_x_axis :: real
  simulation_distance_from_y_axis :: real
  simulation_y_axis_cross_count :: nat
  simulation_steps_to_exit :: nat
  simulation_unsuccessful_moves :: nat
  sim_walker :: walker

text \<open>
  What one iteration of the step loop takes from outside the program: the angles drawn
  by \<open>has_possible_moves\<close>, the draws of \<open>get_next_move\<close>, and the reading of
  \<open>time.time()\<close> taken when the exit from the radius is recorded.
\<close>

record step_input =
  probe_angles :: "nat \<Rightarrow> real"
  move_rnd :: rnd
  clock :: real

text \<open>Lines 64 to 73: the resolution of the proposed move. A type string \<open>'portal'\<close>
  with an object that has no destination would raise AttributeError.\<close>

definition resolve :: "state \<Rightarrow> resolution \<Rightarrow> error + state" where
  "resolve st intersection =
     (case intersection of
        Intersected ty ob \<Rightarrow>
          if ty = ''portal'' then
            (case ob of
               PortalObj po \<Rightarrow>
                 Inr (st\<lparr>sim_walker := set_position (sim_walker st)
                            (fst (portal_destination po)) (snd (portal_destination po))\<rparr>)
             | ObstacleObj o1 \<Rightarrow> Inl AttributeError)
          else Inr (st\<lparr>simulation_unsuccessful_moves := simulation_unsuccessful_moves st + 1\<rparr>)
      | NextPosition p \<Rightarrow> Inr (st\<lparr>sim_walker := move (sim_walker st) (fst p) (snd p)\<rparr>))"

text \<open>Lines 78 to 81: the three running sums.\<close>

definition accumulate_distances :: "state \<Rightarrow> state" where
  "accumulate_distances st =
     st\<lparr>simulation_distance_from_origin :=
          simulation_distance_from_origin st + get_distance (sim_walker st),
        simulation_distance_from_x_axis :=
          simulation_distance_from_x_axis st + \<bar>snd (get_position (sim_walker st))\<bar>,
        simulation_distance_from_y_axis :=
          simulation_distance_from_y_axis st + \<bar>fst (get_position (sim_walker st))\<bar>\<rparr>"

text \<open>Python's \<open>xs[-2]\<close>, which raises IndexError on a list with fewer than two entries.\<close>

definition second_to_last :: "'a list \<Rightarrow> error + 'a" where
  "second_to_last xs = (if length xs < 2 then Inl IndexError else Inr (xs ! (length xs - 2)))"

text \<open>Lines 83 to 85: the condition of the crossing counter, with the operands evaluated
  in Python's order: the path is read only when the first product is not negative and
  is zero.\<close>

definition crossed_y_axis :: "point \<Rightarrow> walker \<Rightarrow> error + bool" where
  "crossed_y_axis previous_position w =
     (if fst previous_position * fst (get_position w) < 0 then Inr True
      else if fst previous_position * fst (get_position w) = 0 then
        (case second_to_last (get_path w) of
           Inl e \<Rightarrow> Inl e
         | Inr q \<Rightarrow> Inr (fst previous_position * fst q \<noteq> 0))
      else Inr False)"

text \<open>Lines 88 to 90.\<close>

definition record_exit :: "real \<Rightarrow> real \<Rightarrow> state \<Rightarrow> state" where
  "record_exit simulation_enter_time now st =
     (if simulation_exit_time st = None \<and> get_distance (sim_walker st) > 10
      then st\<lparr>simulation_exit_time := Some (now - simulation_enter_time),
              simulation_steps_to_exit := get_steps (sim_walker st)\<rparr>
      else st)"

text \<open>Lines 92 to 95.\<close>

definition fold_totals :: "int \<Rightarrow> nat \<Rightarrow> state \<Rightarrow> state" where
  "fold_totals n_steps step st =
     (if n_steps = int step + 1
      then st\<lparr>total_distance_from_origin :=
                total_distance_from_origin st + simulation_distance_from_origin st,
              total_distance_from_x_axis :=
                total_distance_from_x_axis st + simulation_distance_from_x_axis st,
              total_distance_from_y_axis :=
                total_distance_from_y_axis st + simulation_distance_from_y_axis st\<rparr>
      else st)"

text \<open>Lines 76 to 95: the block executed when the position has changed.\<close>

definition position_changed_block ::
  "int \<Rightarrow> real \<Rightarrow> nat \<Rightarrow> real \<Rightarrow> point \<Rightarrow> state \<Rightarrow> error + state" where
  "position_changed_block n_steps simulation_enter_time step now previous_position st =
     (let st1 = accumulate_distances st in
      case crossed_y_axis previous_position (sim_walker st1) of
        Inl e \<Rightarrow> Inl e
      | Inr crossed \<Rightarrow>
          let st2 = (if crossed
                     then st1\<lparr>simulation_y_axis_cross_count :=
                                simulation_y_axis_cross_count st1 + 1\<rparr>
                     else st1)
          in Inr (fold_totals n_steps step (record_exit simulation_enter_time now st2)))"

text \<open>Lines 97 to 105: the statistics record of the step, with the key \<open>step + 1\<close>.\<close>

definition append_step_stats :: "nat \<Rightarrow> state \<Rightarrow> state" where
  "append_step_stats step st =
     st\<lparr>simulation_stats := simulation_stats st @
          [(step + 1,
            \<lparr>avg_distance_from_x_axis = simulation_distance_from_x_axis st / real (step + 1),
             avg_distance_from_y_axis = simulation_distance_from_y_axis st / real (step + 1),
             avg_distance_from_origin = simulation_distance_from_origin st / real (step + 1)\<rparr>)]\<rparr>"

text \<open>Lines 61 to 105: the body of the step loop after the test of
  \<open>has_possible_moves\<close>. The displacement returned by \<open>get_next_move\<close> is passed to
  \<open>check_intersection\<close> as the next position, and the position it returns is passed to
  \<open>move\<close> as a displacement, as the program does.\<close>

definition sim_step ::
  "intersection_fn \<Rightarrow> plane \<Rightarrow> int \<Rightarrow> real \<Rightarrow> nat \<Rightarrow> step_input \<Rightarrow> state \<Rightarrow> error + state" where
  "sim_step isect pl n_steps simulation_enter_time step inp st =
     (let previous_position = get_position (sim_walker st) in
      case get_next_move (sim_walker st) (move_rnd inp) of
        Inl e \<Rightarrow> Inl e
      | Inr next_position \<Rightarrow>
          (case check_intersection isect pl previous_position next_position of
             Inl e \<Rightarrow> Inl e
           | Inr intersection \<Rightarrow>
               (case resolve st intersection of
                  Inl e \<Rightarrow> Inl e
                | Inr st1 \<Rightarrow>
                    (case (if get_position (sim_walker st1) \<noteq> previous_position
                           then position_changed_block n_steps simulation_enter_time step
                                  (clock inp) previous_position st1
                           else Inr st1) of
                       Inl e \<Rightarrow> Inl e
                     | Inr st2 \<Rightarrow> Inr (append_step_stats step st2)))))"

text \<open>The loop \<open>for step in range(args.steps)\<close>: \<open>step\<close> is the loop variable and
  \<open>n\<close> the number of iterations left. The loop is left when \<open>has_possible_moves\<close>
  is false.\<close>

fun sim_loop ::
  "intersection_fn \<Rightarrow> plane \<Rightarrow> int \<Rightarrow> real \<Rightarrow> (nat \<Rightarrow> step_input) \<Rightarrow> nat \<Rightarrow> nat \<Rightarrow> state
     \<Rightarrow> error + state" where
  "sim_loop isect pl n_steps t0 inps step 0 st = Inr st"
| "sim_loop isect pl n_steps t0 inps step (Suc n) st =
     (case has_possible_moves isect (sim_walker st) pl (probe_angles (inps step)) of
        Inl e \<Rightarrow> Inl e
      | Inr False \<Rightarrow> Inr st
      | Inr True \<Rightarrow>
          (case sim_step isect pl n_steps t0 step (inps step) st of
             Inl e \<Rightarrow> Inl e
           | Inr st' \<Rightarrow> sim_loop isect pl n_steps t0 inps (Suc step) n st'))"

text \<open>Lines 40 to 55: the variables of a run are reset and a fresh walker is made.\<close>

definition new_walker :: "args \<Rightarrow> error + walker" where
  "new_walker a =
     (case arg_weights a of
        Some ws \<Rightarrow>
          if arg_walker_type a = 4 then Walker_init (arg_walker_type a) ws
          else Walker_init (arg_walker_type a) default_weights
      | None \<Rightarrow> Walker_init (arg_walker_type a) default_weights)"

definition start_run :: "walker \<Rightarrow> state \<Rightarrow> state" where
  "start_run w st =
     st\<lparr>simulation_stats := [],
        simulation_distance_from_origin := 0,
        simulation_exit_time := None,
        simulation_distance_from_x_axis := 0,
        simulation_distance_from_y_axis := 0,
        simulation_y_axis_cross_count := 0,
        simulation_steps_to_exit := 0,
        simulation_unsuccessful_moves := 0,
        sim_walker := w\<rparr>"

text \<open>Lines 107 to 122: the totals of the run and its per-run record; \<open>i\<close> is the loop
  variable of the runs. \<open>simulation_exit_time or 0\<close> is 0 for \<open>None\<close>.\<close>

definition per_run_record :: "nat \<Rightarrow> state \<Rightarrow> run_stats" where
  "per_run_record i st =
     \<lparr>number_of_steps_to_exit = simulation_steps_to_exit st,
      time_to_exit = simulation_exit_time st,
      number_of_times_crossed_y_axis = simulation_y_axis_cross_count st,
      avg_distance_from_origin_after_N = total_distance_from_origin st / real (i + 1),
      avg_distance_from_x_axis_after_N = total_distance_from_x_axis st / real (i + 1),
      avg_distance_from_y_axis_after_N = total_distance_from_y_axis st / real (i + 1),
      number_of_unsuccessful_moves = total_unsuccessful_moves st\<rparr>"

definition finish_run :: "nat \<Rightarrow> state \<Rightarrow> state" where
  "finish_run i st =
     (let st1 = st\<lparr>total_exit_time :=
                     total_exit_time st +
                       (case simulation_exit_time st of None \<Rightarrow> 0 | Some t \<Rightarrow> t),
                   total_steps_to_exit := total_steps_to_exit st + simulation_steps_to_exit st,
                   total_y_axis_crosses :=
                     total_y_axis_crosses st + simulation_y_axis_cross_count st,
                   total_unsuccessful_moves :=
                     total_unsuccessful_moves st + simulation_unsuccessful_moves st\<rparr>
      in st1\<lparr>multi_simulation_stats := multi_simulation_stats st1 @
               [(i + 1, per_run_record i st1, simulation_stats st1)]\<rparr>)"

text \<open>Lines 40 to 123: one run. \<open>enter i\<close> is the reading of \<open>time.time()\<close> at the start
  of run \<open>i\<close> and \<open>inps i\<close> are the inputs of its steps.\<close>

definition run_once ::
  "intersection_fn \<Rightarrow> plane \<Rightarrow> args \<Rightarrow> (nat \<Rightarrow> real) \<Rightarrow> (nat \<Rightarrow> nat \<Rightarrow> step_input) \<Rightarrow> nat
     \<Rightarrow> state \<Rightarrow> error + state" where
  "run_once isect pl a enter inps i st =
     (case new_walker a of
        Inl e \<Rightarrow> Inl e
      | Inr w \<Rightarrow>
          (case sim_loop isect pl (arg_n_steps a) (enter i) (inps i) 0 (nat (arg_steps a))
                  (start_run w st) of
             Inl e \<Rightarrow> Inl e
           | Inr st' \<Rightarrow> Inr (finish_run i st')))"

text \<open>The loop \<open>for i in range(args.simulations)\<close>.\<close>

fun run_loop ::
  "intersection_fn \<Rightarrow> plane \<Rightarrow> args \<Rightarrow> (nat \<Rightarrow> real) \<Rightarrow> (nat \<Rightarrow> nat \<Rightarrow> step_input) \<Rightarrow> nat
     \<Rightarrow> nat \<Rightarrow> state \<Rightarrow> error + state" where
  "run_loop isect pl a enter inps i 0 st = Inr st"
| "run_loop isect pl a enter inps i (Suc n) st =
     (case run_once isect pl a enter inps i st of
        Inl e \<Rightarrow> Inl e
      | Inr st' \<Rightarrow> run_loop isect pl a enter inps (Suc i) n st')"

text \<open>Lines 28 to 36: the plane, with the portals added before the obstacles.\<close>

definition build_plane :: "args \<Rightarrow> plane" where
  "build_plane a =
     foldl (\<lambda>pl (s, e). add_obstacle pl \<lparr>obstacle_start = s, obstacle_end = e\<rparr>)
       (foldl (\<lambda>pl (s, e, d).
                 add_portal pl \<lparr>portal_start = s, portal_end = e, portal_destination = d\<rparr>)
          Plane_init (arg_portals a))
       (arg_obstacles a)"

text \<open>Lines 19 to 26: the initial values. The variables of a run are set by
  \<open>start_run\<close> before they are read; the placeholder walker is never used.\<close>

definition initial_state :: state where
  "initial_state =
     \<lparr>multi_simulation_stats = [],
      total_distance_from_origin = 0,
      total_exit_time = 0,
      total_distance_from_x_axis = 0,
      total_distance_from_y_axis = 0,
      total_steps_to_exit = 0,
      total_y_axis_crosses = 0,
      total_unsuccessful_moves = 0,
      simulation_stats = [],
      simulation_distance_from_origin = 0,
      simulation_exit_time = None,
      simulation_distance_from_x_axis = 0,
      simulation_distance_from_y_axis = 0,
      simulation_y_axis_cross_count = 0,
      simulation_steps_to_exit = 0,
      simulation_unsuccessful_moves = 0,
      sim_walker = \<lparr>walker_x = 0, walker_y = 0, steps = 0, path = [(0, 0)],
                    weights = default_weights, walker_type = NORMAL_WALKER\<rparr>\<rparr>"

text \<open>\<open>run_simulation\<close>: the runs, then the summary, whose averages divide by
  \<open>args.steps * args.simulations\<close> and by \<open>args.simulations\<close> and raise
  ZeroDivisionError when that is zero; the result is the list of per-run statistics.\<close>

definition run_simulation ::
  "intersection_fn \<Rightarrow> args \<Rightarrow> (nat \<Rightarrow> real) \<Rightarrow> (nat \<Rightarrow> nat \<Rightarrow> step_input)
     \<Rightarrow> error + (nat \<times> run_stats \<times> (nat \<times> step_stats) list) list" where
  "run_simulation isect a enter inps =
     (case run_loop isect (build_plane a) a enter inps 0 (nat (arg_simulations a))
             initial_state of
        Inl e \<Rightarrow> Inl e
      | Inr st \<Rightarrow>
          if arg_steps a * arg_simulations a = 0 then Inl ZeroDivisionError
          else Inr (multi_simulation_stats st))"

subsection \<open>The states of a run, and the geometry of the examples\<close>

text \<open>The states at the end of the iterations of the step loop that were executed, in
  order: the list ends where the loop is left or an exception is raised.\<close>

fun sim_loop_states ::
  "intersection_fn \<Rightarrow> plane \<Rightarrow> int \<Rightarrow> real \<Rightarrow> (nat \<Rightarrow> step_input) \<Rightarrow> nat \<Rightarrow> nat \<Rightarrow> state
     \<Rightarrow> state list" where
  "sim_loop_states isect pl n_steps t0 inps step 0 st = []"
| "sim_loop_states isect pl n_steps t0 inps step (Suc n) st =
     (case has_possible_moves isect (sim_walker st) pl (probe_angles (inps step)) of
        Inl e \<Rightarrow> []
      | Inr False \<Rightarrow> []
      | Inr True \<Rightarrow>
          (case sim_step isect pl n_steps t0 step (inps step) st of
             Inl e \<Rightarrow> []
           | Inr st' \<Rightarrow> st' # sim_loop_states isect pl n_steps t0 inps (Suc step) n st'))"

text \<open>
  An instance of the geometry parameter for the examples: the intersection of a path and
  a segment that are both parallel to an axis and of positive length. A vertical and a
  horizontal one meet in a point or not at all; two on the same line share a stretch (a
  geometry that is not a point), a single end point, or nothing; two on different
  parallel lines share nothing. It is used on such segments only.
\<close>

definition axis_intersection :: intersection_fn where
  "axis_intersection pth seg =
     (let x1 = fst (fst pth); y1 = snd (fst pth); x2 = fst (snd pth); y2 = snd (snd pth);
          a1 = fst (fst seg); b1 = snd (fst seg); a2 = fst (snd seg); b2 = snd (snd seg)
      in if x1 = x2 \<and> b1 = b2 then
           (if min a1 a2 \<le> x1 \<and> x1 \<le> max a1 a2 \<and> min y1 y2 \<le> b1 \<and> b1 \<le> max y1 y2
            then PointGeom (x1, b1) else Empty)
         else if y1 = y2 \<and> a1 = a2 then
           (if min b1 b2 \<le> y1 \<and> y1 \<le> max b1 b2 \<and> min x1 x2 \<le> a1 \<and> a1 \<le> max x1 x2
            then PointGeom (a1, y1) else Empty)
         else if y1 = y2 \<and> b1 = b2 \<and> y1 = b1 then
           (if max (min x1 x2) (min a1 a2) < min (max x1 x2) (max a1 a2) then OtherGeom
            else if max (min x1 x2) (min a1 a2) = min (max x1 x2) (max a1 a2)
            then PointGeom (max (min x1 x2) (min a1 a2), y1) else Empty)
         else if x1 = x2 \<and> a1 = a2 \<and> x1 = a1 then
           (if max (min y1 y2) (min b1 b2) < min (max y1 y2) (max b1 b2) then OtherGeom
            else if max (min y1 y2) (min b1 b2) = min (max y1 y2) (max b1 b2)
            then PointGeom (x1, max (min y1 y2) (min b1 b2)) else Empty)
         else Empty)"

text \<open>The inputs of the examples: a discrete walker whose draws select the directions
  with the given indices, step after step; the clock reads \<open>k + 1\<close> in step \<open>k\<close>.\<close>

definition picks :: "nat list \<Rightarrow> nat \<Rightarrow> step_input" where
  "picks ps k =
     \<lparr>probe_angles = (\<lambda>j. 0), move_rnd = \<lparr>angle = 0, step_len = 1, pick = ps ! k\<rparr>,
      clock = real k + 1\<rparr>"

text \<open>A discrete walker as constructed, a bar above the origin as an obstacle and as a
  portal, and the state of a run after a first step down from the origin.\<close>

definition fresh_discrete :: walker where
  "fresh_discrete =
     \<lparr>walker_x = 0, walker_y = 0, steps = 0, path = [(0, 0)],
      weights = default_weights, walker_type = DISCRETE_WALKER\<rparr>"

definition bar_obstacle :: obstacle where
  "bar_obstacle = \<lparr>obstacle_start = (-1, 1/2), obstacle_end = (1, 1/2)\<rparr>"

definition bar_portal :: portal where
  "bar_portal =
     \<lparr>portal_start = (-1, 1/2), portal_end = (1, 1/2), portal_destination = (10, 10)\<rparr>"

definition obstacle_plane :: plane where
  "obstacle_plane = add_obstacle Plane_init bar_obstacle"

definition portal_plane :: plane where
  "portal_plane = add_portal Plane_init bar_portal"

definition state_below :: state where
  "state_below =
     (start_run (move fresh_discrete 0 (-1)) initial_state)
       \<lparr>simulation_stats :=
          [(1, \<lparr>avg_distance_from_x_axis = 1, avg_distance_from_y_axis = 0,
                avg_distance_from_origin = 1\<rparr>)],
        simulation_distance_from_origin := 1,
        simulation_distance_from_x_axis := 1\<rparr>"

text \<open>The statistics record with the key \<open>k + 1\<close> and the averages of the sums of the
  state \<open>s\<close>: what step \<open>k\<close> appends when \<open>s\<close> holds the sums at its end.\<close>

definition step_record :: "nat \<Rightarrow> state \<Rightarrow> nat \<times> step_stats" where
  "step_record k s =
     (k + 1,
      \<lparr>avg_distance_from_x_axis = simulation_distance_from_x_axis s / real (k + 1),
       avg_distance_from_y_axis = simulation_distance_from_y_axis s / real (k + 1),
       avg_distance_from_origin = simulation_distance_from_origin s / real (k + 1)\<rparr>)"

text \<open>The records of consecutive steps, the first of them step \<open>k\<close>, from the states at
  their ends.\<close>

fun records_from :: "nat \<Rightarrow> state list \<Rightarrow> (nat \<times> step_stats) list" where
  "records_from k [] = []"
| "records_from k (s # ss) = step_record k s # records_from (Suc k) ss"

text \<open>The arguments of a session of one run of five steps of a discrete walker, without
  obstacles and portals.\<close>

definition five_step_args :: args where
  "five_step_args =
     \<lparr>arg_walker_type = 3, arg_steps = 5, arg_simulations = 1, arg_n_steps = 5,
      arg_portals = [], arg_obstacles = [], arg_weights = None\<rparr>"

text \<open>The moves that \<open>has_possible_moves\<close> probes, in order: the five fixed ones, and
  for the two continuous kinds of walker the hundred random directions after them.\<close>

definition probe_moves :: "walker \<Rightarrow> (nat \<Rightarrow> real) \<Rightarrow> point list" where
  "probe_moves w angles =
     possible_moves w @
     (if get_walker_type w = NORMAL_WALKER \<or> get_walker_type w = UNEVEN_STEP_WALKER
      then random_directions angles else [])"

text \<open>A discrete walker three steps to the right of the origin, inside a box of four
  obstacles of side 1 around it.\<close>

definition boxed_walker :: walker where
  "boxed_walker = moves fresh_discrete [(1, 0), (1, 0), (1, 0)]"

definition box_plane :: plane where
  "box_plane =
     \<lparr>obstacles =
        [\<lparr>obstacle_start = (5/2, 1/2), obstacle_end = (7/2, 1/2)\<rparr>,
         \<lparr>obstacle_start = (5/2, -1/2), obstacle_end = (7/2, -1/2)\<rparr>,
         \<lparr>obstacle_start = (5/2, -1/2), obstacle_end = (5/2, 1/2)\<rparr>,
         \<lparr>obstacle_start = (7/2, -1/2), obstacle_end = (7/2, 1/2)\<rparr>],
      portals = []\<rparr>"

text \<open>The crossing condition in the words of the specification: the sign of x flips
  between the previous and the current position, or the previous x is exactly on the
  axis while the position two steps before was on the side opposite to the current one.\<close>

definition spec_crossed_y_axis :: "point \<Rightarrow> point \<Rightarrow> point \<Rightarrow> bool" where
  "spec_crossed_y_axis previous current two_prior \<longleftrightarrow>
     fst previous * fst current < 0 \<or>
     (fst previous = 0 \<and> fst two_prior * fst current < 0)"

text \<open>The states of a run of a discrete walker on the empty plane that steps left, then
  right, then right again: after the first, the second and the third step.\<close>

definition state_left :: state where
  "state_left =
     (start_run (moves fresh_discrete [(-1, 0)]) initial_state)
       \<lparr>simulation_stats :=
          [(1, \<lparr>avg_distance_from_x_axis = 0, avg_distance_from_y_axis = 1,
                avg_distance_from_origin = 1\<rparr>)],
        simulation_distance_from_origin := 1,
        simulation_distance_from_y_axis := 1\<rparr>"

definition state_back_on_axis :: state where
  "state_back_on_axis =
     state_left
       \<lparr>simulation_stats := simulation_stats state_left @
          [(2, \<lparr>avg_distance_from_x_axis = 0, avg_distance_from_y_axis = 1 / 2,
                avg_distance_from_origin = 1 / 2\<rparr>)],
        simulation_y_axis_cross_count := 1,
        sim_walker := moves fresh_discrete [(-1, 0), (1, 0)]\<rparr>"

definition state_across :: state where
  "state_across =
     state_back_on_axis
       \<lparr>simulation_stats := simulation_stats state_back_on_axis @
          [(3, \<lparr>avg_distance_from_x_axis = 0, avg_distance_from_y_axis = 2 / 3,
                avg_distance_from_origin = 2 / 3\<rparr>)],
        simulation_distance_from_origin := 2,
        simulation_distance_from_y_axis := 2,
        sim_walker := moves fresh_discrete [(-1, 0), (1, 0), (1, 0)]\<rparr>"

text \<open>The states of two example runs of two steps, down and then up: through the bar
  as a portal, and against the bar as an obstacle.\<close>

definition portal_run_states :: "state list" where
  "portal_run_states =
     sim_loop_states axis_intersection portal_plane 2 0 (picks [1, 0]) 0 2
       (start_run fresh_discrete initial_state)"

definition obstacle_run_states :: "state list" where
  "obstacle_run_states =
     sim_loop_states axis_intersection obstacle_plane 2 0 (picks [1, 0]) 0 2
       (start_run fresh_discrete initial_state)"

text \<open>The segments of a plane in the order of the scan, obstacles before portals, each
  with the pair that \<open>check_intersection\<close> returns for it; and the scan over such a
  list, of which the two loops of \<open>check_intersection\<close> are instances.\<close>

definition segments :: "plane \<Rightarrow> ((string \<times> intersected) \<times> (point \<times> point)) list" where
  "segments pl =
     map (\<lambda>ob. ((''obstacle'', ObstacleObj ob), (obstacle_start ob, obstacle_end ob)))
       (obstacles pl) @
     map (\<lambda>po. ((''portal'', PortalObj po), (portal_start po, portal_end po))) (portals pl)"

fun scan_segments ::
  "intersection_fn \<Rightarrow> point \<Rightarrow> point \<Rightarrow> ((string \<times> intersected) \<times> (point \<times> point)) list
     \<Rightarrow> scan \<Rightarrow> error + scan" where
  "scan_segments isect cur nxt [] s = Inr s"
| "scan_segments isect cur nxt (e # es) s =
     (case isect (cur, nxt) (snd e) of
        Empty \<Rightarrow> scan_segments isect cur nxt es s
      | OtherGeom \<Rightarrow> Inl AttributeError
      | PointGeom p \<Rightarrow>
          if less_than_min (distance cur p) (min_distance s)
          then scan_segments isect cur nxt es
                 \<lparr>min_distance = Some (distance cur p), intersected = Some (fst e)\<rparr>
          else scan_segments isect cur nxt es s)"

text \<open>A plane with one obstacle along the x-axis, from the origin to (5,0).\<close>

definition axis_obstacle_plane :: plane where
  "axis_obstacle_plane =
     add_obstacle Plane_init \<lparr>obstacle_start = (0, 0), obstacle_end = (5, 0)\<rparr>"

text \<open>A plane with one obstacle along the y-axis, from (0,1/4) to (0,5).\<close>

definition upper_axis_obstacle_plane :: plane where
  "upper_axis_obstacle_plane =
     add_obstacle Plane_init \<lparr>obstacle_start = (0, 1/4), obstacle_end = (0, 5)\<rparr>"

text \<open>What the steps of a run contribute to the sum of a distance metric \<open>f\<close>, in the
  words of the specification: from the walker at the start and the walkers at the ends
  of the steps, a step that changed the position contributes the metric of the new
  position, and a step that left it unchanged contributes nothing. The cumulative sum
  after step \<open>k\<close> (counted from 0) is the sum of the first \<open>k + 1\<close> contributions.\<close>

fun contributions :: "(walker \<Rightarrow> real) \<Rightarrow> walker \<Rightarrow> walker list \<Rightarrow> real list" where
  "contributions f w [] = []"
| "contributions f w (w' # ws) =
     (if get_position w' \<noteq> get_position w then f w' else 0) # contributions f w' ws"

definition cumulative_sum :: "(walker \<Rightarrow> real) \<Rightarrow> walker \<Rightarrow> walker list \<Rightarrow> nat \<Rightarrow> real" where
  "cumulative_sum f w ws k = sum_list (take (k + 1) (contributions f w ws))"

text \<open>The three distance metrics of a walker: from the x-axis, from the y-axis and from
  the origin.\<close>

definition distance_from_x_axis :: "walker \<Rightarrow> real" where
  "distance_from_x_axis w = \<bar>snd (get_position w)\<bar>"

definition distance_from_y_axis :: "walker \<Rightarrow> real" where
  "distance_from_y_axis w = \<bar>fst (get_position w)\<bar>"

text \<open>The states of the example run left, right, right.\<close>

definition crossing_run_states :: "state list" where
  "crossing_run_states =
     sim_loop_states axis_intersection Plane_init 5 0 (picks [3, 2, 2]) 0 3
       (start_run fresh_discrete initial_state)"

text \<open>The statistics record of step \<open>k\<close> (counted from 0) in the words of the
  specification: the key is the 1-based step index, and each average is the cumulative
  sum so far of its distance metric divided by the step index.\<close>

definition cumulative_record :: "walker \<Rightarrow> walker list \<Rightarrow> nat \<Rightarrow> nat \<times> step_stats" where
  "cumulative_record w ws k =
     (k + 1,
      \<lparr>avg_distance_from_x_axis = cumulative_sum distance_from_x_axis w ws k / real (k + 1),
       avg_distance_from_y_axis = cumulative_sum distance_from_y_axis w ws k / real (k + 1),
       avg_distance_from_origin = cumulative_sum get_distance w ws k / real (k + 1)\<rparr>)"

text \<open>The walkers after each of a sequence of committed moves, and the moves that a
  discrete walker draws in the steps \<open>step\<close> to \<open>step + n - 1\<close>: in each step one of
  the four unit moves along the axes, as in \<open>get_next_move\<close>.\<close>

fun walk :: "walker \<Rightarrow> point list \<Rightarrow> walker list" where
  "walk w [] = []"
| "walk w (d # ds) = move w (fst d) (snd d) # walk (move w (fst d) (snd d)) ds"

definition discrete_draw :: "rnd \<Rightarrow> point" where
  "discrete_draw r = random_choice [(0, 1), (0, -1), (1, 0), (-1, 0)] (pick r)"

definition drawn_moves :: "(nat \<Rightarrow> step_input) \<Rightarrow> nat \<Rightarrow> nat \<Rightarrow> point list" where
  "drawn_moves inps step n =
     map (\<lambda>k. discrete_draw (move_rnd (inps k))) [step ..< step + n]"

section \<open>Properties of the walker\<close>

lemma walker_inv_move: "walker_inv w \<Longrightarrow> walker_inv (move w dx dy)"
  by (simp add: walker_inv_def move_def get_path_def get_steps_def get_position_def)

lemma walker_inv_moves: "walker_inv w \<Longrightarrow> walker_inv (moves w ds)"
  by (induction ds arbitrary: w) (simp_all add: walker_inv_move)

lemma walker_inv_init: "Walker_init wt ws = Inr w \<Longrightarrow> walker_inv w"
  by (auto simp: Walker_init_def walker_inv_def get_path_def get_steps_def get_position_def
      split: if_splits)

text \<open>
  Claim C2. A walker of any of the four kinds can be constructed, and from construction on,
  after any sequence of committed moves, the path length is the step count plus 1 and the
  current position is the last path entry.
\<close>

theorem walker_path_invariant:
  assumes "wt \<in> ACCEPTABLE_WALKER_TYPES"
  shows "\<exists>w. Walker_init wt ws = Inr w \<and>
           length (get_path (moves w ds)) = get_steps (moves w ds) + 1 \<and>
           get_position (moves w ds) = last (get_path (moves w ds))"
proof -
  from assms obtain w where w: "Walker_init wt ws = Inr w"
    by (simp add: Walker_init_def)
  then have "walker_inv (moves w ds)"
    by (intro walker_inv_moves walker_inv_init)
  with w show ?thesis
    by (auto simp: walker_inv_def)
qed

theorem walker_path_invariant_witness:
  "DISCRETE_WALKER \<in> ACCEPTABLE_WALKER_TYPES \<and>
   (\<exists>w. Walker_init DISCRETE_WALKER default_weights = Inr w \<and>
      length (get_path (moves w [(1, 0), (0, -1)])) = get_steps (moves w [(1, 0), (0, -1)]) + 1 \<and>
      get_position (moves w [(1, 0), (0, -1)]) = last (get_path (moves w [(1, 0), (0, -1)])))"
proof -
  have h: "DISCRETE_WALKER \<in> ACCEPTABLE_WALKER_TYPES"
    by (simp add: ACCEPTABLE_WALKER_TYPES_def)
  show ?thesis
    using h walker_path_invariant [OF h, of default_weights "[(1, 0), (0, -1)]"] by simp
qed

text \<open>
  Claim C10, as stated, fails: a walker of the weighted kind with three weights is
  constructed without an error, although its weight count is malformed.
\<close>

theorem walker_init_weight_count_counterexample:
  "length [1, 2, 3 :: int] \<noteq> 5 \<and>
   Walker_init UNEVEN_DISTRIBUTION_WALKER [1, 2, 3] =
     Inr \<lparr>walker_x = 0, walker_y = 0, steps = 0, path = [(0, 0)],
          weights = [1, 2, 3], walker_type = UNEVEN_DISTRIBUTION_WALKER\<rparr>"
  by (simp add: Walker_init_def ACCEPTABLE_WALKER_TYPES_def)

text \<open>
  Claim C10, amended. Constructing a walker raises the configuration error exactly when
  the walker kind is outside the four accepted variants, whatever the weights are; with an
  accepted kind the construction succeeds and yields position (0,0), step count 0 and
  path [(0,0)], storing the kind and the weights as given.
\<close>

theorem walker_init_error_iff:
  "(Walker_init wt ws = Inl ValueError \<longleftrightarrow> wt \<notin> ACCEPTABLE_WALKER_TYPES) \<and>
   (\<forall>e. Walker_init wt ws = Inl e \<longrightarrow> e = ValueError) \<and>
   (wt \<in> ACCEPTABLE_WALKER_TYPES \<longrightarrow>
      (\<exists>w. Walker_init wt ws = Inr w \<and> get_position w = (0, 0) \<and> get_steps w = 0 \<and>
           get_path w = [(0, 0)] \<and> get_walker_type w = wt \<and> weights w = ws))"
  by (simp add: Walker_init_def get_position_def get_steps_def get_path_def
      get_walker_type_def)

theorem walker_init_error_iff_witness:
  "NORMAL_WALKER \<in> ACCEPTABLE_WALKER_TYPES \<and>
   Walker_init NORMAL_WALKER default_weights \<noteq> Inl ValueError \<and>
   (\<exists>w. Walker_init NORMAL_WALKER default_weights = Inr w \<and> get_position w = (0, 0) \<and>
        get_steps w = 0 \<and> get_path w = [(0, 0)]) \<and>
   5 \<notin> ACCEPTABLE_WALKER_TYPES \<and>
   Walker_init 5 default_weights = Inl ValueError"
proof -
  have h: "NORMAL_WALKER \<in> ACCEPTABLE_WALKER_TYPES" "5 \<notin> ACCEPTABLE_WALKER_TYPES"
    by (simp_all add: ACCEPTABLE_WALKER_TYPES_def NORMAL_WALKER_def UNEVEN_STEP_WALKER_def
        DISCRETE_WALKER_def UNEVEN_DISTRIBUTION_WALKER_def)
  show ?thesis
    using h walker_init_error_iff [of NORMAL_WALKER default_weights]
      walker_init_error_iff [of 5 default_weights]
    by auto
qed

section \<open>The result of the intersection check\<close>

lemma scan_obstacles_tag:
  "scan_obstacles isect cur nxt obs s = Inr s' \<Longrightarrow>
   intersected s' = intersected s \<or>
   (\<exists>ob. intersected s' = Some (''obstacle'', ObstacleObj ob))"
  by (induction obs arbitrary: s) (auto split: geometry.splits if_splits)

lemma scan_portals_tag:
  "scan_portals isect cur nxt pos s = Inr s' \<Longrightarrow>
   intersected s' = intersected s \<or> (\<exists>po. intersected s' = Some (''portal'', PortalObj po))"
  by (induction pos arbitrary: s) (auto split: geometry.splits if_splits)

text \<open>The type string always names the class of the object returned with it.\<close>

lemma check_intersection_cases:
  assumes "check_intersection isect pl cur nxt = Inr r"
  shows "r = NextPosition nxt \<or> (\<exists>ob. r = Intersected ''obstacle'' (ObstacleObj ob)) \<or>
         (\<exists>po. r = Intersected ''portal'' (PortalObj po))"
proof -
  from assms obtain s1 s2 where
    s1: "scan_obstacles isect cur nxt (obstacles pl)
           \<lparr>min_distance = None, intersected = None\<rparr> = Inr s1"
    and s2: "scan_portals isect cur nxt (portals pl) s1 = Inr s2"
    and r: "r = (case intersected s2 of None \<Rightarrow> NextPosition nxt
                 | Some (ty, ob) \<Rightarrow> Intersected ty ob)"
    by (auto simp: check_intersection_def split: sum.splits option.splits)
  from scan_obstacles_tag [OF s1] scan_portals_tag [OF s2] r show ?thesis
    by auto
qed

lemma is_obstacle_hit_iff:
  assumes "check_intersection isect pl cur nxt = Inr r"
  shows "is_obstacle_hit r \<longleftrightarrow> (\<exists>ob. r = Intersected ''obstacle'' (ObstacleObj ob))"
  using check_intersection_cases [OF assms] by (auto simp: is_obstacle_hit_def)

section \<open>The phases of a step\<close>

lemma sim_step_InrE:
  assumes "sim_step isect pl n_steps t0 step inp st = Inr st'"
  obtains nxt r st1 st2 where
    "get_next_move (sim_walker st) (move_rnd inp) = Inr nxt"
    "check_intersection isect pl (get_position (sim_walker st)) nxt = Inr r"
    "resolve st r = Inr st1"
    "(if get_position (sim_walker st1) \<noteq> get_position (sim_walker st)
      then position_changed_block n_steps t0 step (clock inp)
             (get_position (sim_walker st)) st1
      else Inr st1) = Inr st2"
    "st' = append_step_stats step st2"
  using assms unfolding sim_step_def Let_def
  by (auto split: sum.splits)

lemma resolve_cases:
  assumes "resolve st r = Inr st1"
  shows "(\<exists>p. r = NextPosition p \<and>
            st1 = st\<lparr>sim_walker := move (sim_walker st) (fst p) (snd p)\<rparr>) \<or>
         (\<exists>po. r = Intersected ''portal'' (PortalObj po) \<and>
            st1 = st\<lparr>sim_walker := set_position (sim_walker st)
                    (fst (portal_destination po)) (snd (portal_destination po))\<rparr>) \<or>
         (\<exists>ty ob. r = Intersected ty ob \<and> ty \<noteq> ''portal'' \<and>
            st1 = st\<lparr>simulation_unsuccessful_moves := simulation_unsuccessful_moves st + 1\<rparr>)"
  using assms unfolding resolve_def
  by (auto split: resolution.splits intersected.splits if_splits)

lemma block_frame:
  assumes "position_changed_block n_steps t0 step now prev st1 = Inr st2"
  shows "sim_walker st2 = sim_walker st1"
    and "simulation_stats st2 = simulation_stats st1"
    and "simulation_unsuccessful_moves st2 = simulation_unsuccessful_moves st1"
  using assms unfolding position_changed_block_def Let_def
  by (auto simp: fold_totals_def record_exit_def accumulate_distances_def
      split: sum.splits if_splits)

lemma append_step_stats_frame:
  "sim_walker (append_step_stats step st) = sim_walker st"
  "simulation_unsuccessful_moves (append_step_stats step st) = simulation_unsuccessful_moves st"
  "simulation_exit_time (append_step_stats step st) = simulation_exit_time st"
  "simulation_steps_to_exit (append_step_stats step st) = simulation_steps_to_exit st"
  "simulation_y_axis_cross_count (append_step_stats step st) = simulation_y_axis_cross_count st"
  "simulation_distance_from_origin (append_step_stats step st) =
     simulation_distance_from_origin st"
  "simulation_distance_from_x_axis (append_step_stats step st) =
     simulation_distance_from_x_axis st"
  "simulation_distance_from_y_axis (append_step_stats step st) =
     simulation_distance_from_y_axis st"
  "total_distance_from_origin (append_step_stats step st) = total_distance_from_origin st"
  "total_distance_from_x_axis (append_step_stats step st) = total_distance_from_x_axis st"
  "total_distance_from_y_axis (append_step_stats step st) = total_distance_from_y_axis st"
  by (simp_all add: append_step_stats_def)

text \<open>The walker at the end of a completed step is the walker after the resolution.\<close>

lemma sim_step_walker:
  assumes "sim_step isect pl n_steps t0 step inp st = Inr st'"
    and "get_next_move (sim_walker st) (move_rnd inp) = Inr nxt"
    and "check_intersection isect pl (get_position (sim_walker st)) nxt = Inr r"
    and "resolve st r = Inr st1"
  shows "sim_walker st' = sim_walker st1"
proof -
  from assms(1) obtain nxt' r' st1' st2 where
    a: "get_next_move (sim_walker st) (move_rnd inp) = Inr nxt'"
    "check_intersection isect pl (get_position (sim_walker st)) nxt' = Inr r'"
    "resolve st r' = Inr st1'"
    and b: "(if get_position (sim_walker st1') \<noteq> get_position (sim_walker st)
      then position_changed_block n_steps t0 step (clock inp)
             (get_position (sim_walker st)) st1'
      else Inr st1') = Inr st2"
    and c: "st' = append_step_stats step st2"
    by (rule sim_step_InrE)
  from a assms(2-4) have "st1' = st1" by simp
  with b have "sim_walker st2 = sim_walker st1"
    by (auto split: if_splits dest: block_frame(1))
  with c show ?thesis by (simp add: append_step_stats_frame)
qed

lemmas example_defs =
  fresh_discrete_def bar_obstacle_def bar_portal_def obstacle_plane_def portal_plane_def
  state_below_def picks_def start_run_def initial_state_def add_obstacle_def add_portal_def
  Plane_init_def default_weights_def NORMAL_WALKER_def UNEVEN_STEP_WALKER_def
  DISCRETE_WALKER_def UNEVEN_DISTRIBUTION_WALKER_def

lemmas step_defs =
  sim_step_def get_next_move_def random_choice_def resolve_def move_def set_position_def
  append_step_stats_def position_changed_block_def accumulate_distances_def
  crossed_y_axis_def second_to_last_def get_path_def get_steps_def get_position_def
  record_exit_def fold_totals_def get_distance_def Let_def

lemmas probe_defs =
  has_possible_moves_def possible_moves_def UP_def DOWN_def LEFT_def RIGHT_def
  check_intersection_def axis_intersection_def less_than_min_def is_obstacle_hit_def
  get_walker_type_def distance_def

text \<open>The example state is the state of a run after its first step, on either plane.\<close>

lemma state_below_reached_obstacle_plane:
  "sim_loop axis_intersection obstacle_plane 2 0 (picks [1, 0]) 0 1
     (start_run fresh_discrete initial_state) = Inr state_below"
  by (simp add: example_defs step_defs probe_defs)

lemma state_below_reached_portal_plane:
  "sim_loop axis_intersection portal_plane 2 0 (picks [1, 0]) 0 1
     (start_run fresh_discrete initial_state) = Inr state_below"
  by (simp add: example_defs step_defs probe_defs)

lemma sqrt_200_gt_10: "10 < sqrt 200"
  by (rule real_less_rsqrt) simp

text \<open>
  Claim C3. When the intersection check resolves the proposed move to an obstacle, the
  step completes, the walker (its position, step count and path) is unchanged, and the
  run's counter of unsuccessful moves is larger by exactly 1.
\<close>

theorem obstacle_hit_rejects_move:
  assumes "get_next_move (sim_walker st) (move_rnd inp) = Inr nxt"
    and "check_intersection isect pl (get_position (sim_walker st)) nxt = Inr r"
    and "is_obstacle_hit r"
  shows "\<exists>st'. sim_step isect pl n_steps t0 step inp st = Inr st' \<and>
           sim_walker st' = sim_walker st \<and>
           get_position (sim_walker st') = get_position (sim_walker st) \<and>
           get_steps (sim_walker st') = get_steps (sim_walker st) \<and>
           get_path (sim_walker st') = get_path (sim_walker st) \<and>
           simulation_unsuccessful_moves st' = simulation_unsuccessful_moves st + 1"
proof -
  from assms(2,3) obtain ob where r: "r = Intersected ''obstacle'' (ObstacleObj ob)"
    using is_obstacle_hit_iff by blast
  show ?thesis
    using assms(1,2) unfolding r
    by (simp add: sim_step_def resolve_def append_step_stats_def)
qed

theorem obstacle_hit_rejects_move_witness:
  "get_next_move (sim_walker state_below) (move_rnd (picks [1, 0] 1)) = Inr (0, 1) \<and>
   check_intersection axis_intersection obstacle_plane (get_position (sim_walker state_below))
     (0, 1) = Inr (Intersected ''obstacle'' (ObstacleObj bar_obstacle)) \<and>
   is_obstacle_hit (Intersected ''obstacle'' (ObstacleObj bar_obstacle)) \<and>
   (\<exists>st'. sim_step axis_intersection obstacle_plane 2 0 1 (picks [1, 0] 1) state_below = Inr st' \<and>
      get_position (sim_walker st') = (0, -1) \<and>
      get_steps (sim_walker st') = 1 \<and>
      get_path (sim_walker st') = [(0, 0), (0, -1)] \<and>
      simulation_unsuccessful_moves st' = 1)"
proof -
  have h1: "get_next_move (sim_walker state_below) (move_rnd (picks [1, 0] 1)) = Inr (0, 1)"
    by (simp add: example_defs step_defs)
  have h2: "check_intersection axis_intersection obstacle_plane
      (get_position (sim_walker state_below)) (0, 1)
      = Inr (Intersected ''obstacle'' (ObstacleObj bar_obstacle))"
    by (simp add: example_defs step_defs probe_defs)
  have h3: "is_obstacle_hit (Intersected ''obstacle'' (ObstacleObj bar_obstacle))"
    by (simp add: is_obstacle_hit_def)
  have s: "get_position (sim_walker state_below) = (0, -1)"
    "get_steps (sim_walker state_below) = 1"
    "get_path (sim_walker state_below) = [(0, 0), (0, -1)]"
    "simulation_unsuccessful_moves state_below = 0"
    by (simp_all add: example_defs step_defs)
  from obstacle_hit_rejects_move [OF h1 h2 h3, of 2 0 1] h1 h2 h3 s show ?thesis
    by auto
qed

text \<open>
  Claim C4. When the intersection check resolves the proposed move to a portal, the
  resolution places the walker at exactly the portal's destination by
  \<open>set_position\<close>, which changes the two coordinates only: the step count, the path, the
  kind and the weights are as before, and so is the counter of unsuccessful moves. The
  destination is the position a following move starts from, and it is the walker's
  position at the end of the step when the step completes.
\<close>

theorem portal_hit_teleports:
  assumes "check_intersection isect pl (get_position (sim_walker st)) nxt =
             Inr (Intersected ty (PortalObj po))"
  shows "\<exists>st1. resolve st (Intersected ty (PortalObj po)) = Inr st1 \<and>
           sim_walker st1 = set_position (sim_walker st)
             (fst (portal_destination po)) (snd (portal_destination po)) \<and>
           sim_walker st1 = (sim_walker st)\<lparr>walker_x := fst (portal_destination po),
             walker_y := snd (portal_destination po)\<rparr> \<and>
           get_position (sim_walker st1) = portal_destination po \<and>
           get_steps (sim_walker st1) = get_steps (sim_walker st) \<and>
           get_path (sim_walker st1) = get_path (sim_walker st) \<and>
           get_walker_type (sim_walker st1) = get_walker_type (sim_walker st) \<and>
           weights (sim_walker st1) = weights (sim_walker st) \<and>
           simulation_unsuccessful_moves st1 = simulation_unsuccessful_moves st \<and>
           get_position (move (sim_walker st1) dx dy) =
             (fst (portal_destination po) + dx, snd (portal_destination po) + dy) \<and>
           (get_next_move (sim_walker st) (move_rnd inp) = Inr nxt \<and>
            sim_step isect pl n_steps t0 step inp st = Inr st' \<longrightarrow>
              sim_walker st' = sim_walker st1)"
proof -
  from check_intersection_cases [OF assms] have ty: "ty = ''portal''"
    by auto
  define st1 where "st1 = st\<lparr>sim_walker := set_position (sim_walker st)
    (fst (portal_destination po)) (snd (portal_destination po))\<rparr>"
  have res: "resolve st (Intersected ty (PortalObj po)) = Inr st1"
    by (simp add: resolve_def ty st1_def)
  have "sim_walker st' = sim_walker st1"
    if "get_next_move (sim_walker st) (move_rnd inp) = Inr nxt"
      and "sim_step isect pl n_steps t0 step inp st = Inr st'"
    using sim_step_walker [OF that(2) that(1) assms res] .
  with res show ?thesis
    by (auto simp: st1_def set_position_def get_position_def get_steps_def get_path_def
        get_walker_type_def move_def)
qed

theorem portal_hit_teleports_witness:
  "check_intersection axis_intersection portal_plane (get_position (sim_walker state_below))
     (0, 1) = Inr (Intersected ''portal'' (PortalObj bar_portal)) \<and>
   get_next_move (sim_walker state_below) (move_rnd (picks [1, 0] 1)) = Inr (0, 1) \<and>
   (\<exists>st'. sim_step axis_intersection portal_plane 2 0 1 (picks [1, 0] 1) state_below = Inr st' \<and>
      get_position (sim_walker st') = (10, 10) \<and>
      get_steps (sim_walker st') = 1 \<and>
      get_path (sim_walker st') = [(0, 0), (0, -1)] \<and>
      get_position (move (sim_walker st') 1 0) = (11, 10))"
proof -
  have h1: "check_intersection axis_intersection portal_plane
      (get_position (sim_walker state_below)) (0, 1)
      = Inr (Intersected ''portal'' (PortalObj bar_portal))"
    by (simp add: example_defs step_defs probe_defs)
  have h2: "get_next_move (sim_walker state_below) (move_rnd (picks [1, 0] 1)) = Inr (0, 1)"
    by (simp add: example_defs step_defs)
  obtain st' where
    h3: "sim_step axis_intersection portal_plane 2 0 1 (picks [1, 0] 1) state_below = Inr st'"
    by (simp add: example_defs step_defs probe_defs sqrt_200_gt_10)
  have s: "get_steps (sim_walker state_below) = 1"
    "get_path (sim_walker state_below) = [(0, 0), (0, -1)]"
    "portal_destination bar_portal = (10, 10)"
    by (simp_all add: example_defs step_defs)
  from portal_hit_teleports [OF h1, of 1 0 "picks [1, 0] 1" 2 0 1 st'] h1 h2 h3 s
  show ?thesis
    by auto
qed

section \<open>The statistics records of a run\<close>

lemma sim_step_stats:
  assumes "sim_step isect pl n_steps t0 step inp st = Inr st'"
  shows "simulation_stats st' = simulation_stats st @ [step_record step st']"
proof -
  from assms obtain nxt r st1 st2 where
    res: "resolve st r = Inr st1"
    and blk: "(if get_position (sim_walker st1) \<noteq> get_position (sim_walker st)
      then position_changed_block n_steps t0 step (clock inp)
             (get_position (sim_walker st)) st1
      else Inr st1) = Inr st2"
    and st': "st' = append_step_stats step st2"
    by (rule sim_step_InrE)
  from resolve_cases [OF res] have "simulation_stats st1 = simulation_stats st"
    by auto
  moreover from blk have "simulation_stats st2 = simulation_stats st1"
    by (auto split: if_splits dest: block_frame(2))
  ultimately show ?thesis
    by (simp add: st' append_step_stats_def step_record_def)
qed

lemma sim_loop_stats:
  assumes "sim_loop isect pl n_steps t0 inps step n st = Inr st'"
  shows "simulation_stats st' = simulation_stats st @
           records_from step (sim_loop_states isect pl n_steps t0 inps step n st)"
  using assms
proof (induction n arbitrary: st step)
  case 0
  then show ?case by simp
next
  case (Suc n)
  show ?case
  proof (cases "has_possible_moves isect (sim_walker st) pl (probe_angles (inps step))")
    case (Inl e)
    with Suc.prems show ?thesis by simp
  next
    case (Inr b)
    show ?thesis
    proof (cases b)
      case False
      with Inr Suc.prems show ?thesis by simp
    next
      case True
      with Inr Suc.prems obtain s1 where
        s1: "sim_step isect pl n_steps t0 step (inps step) st = Inr s1"
        and rest: "sim_loop isect pl n_steps t0 inps (Suc step) n s1 = Inr st'"
        by (auto split: sum.splits)
      from Suc.IH [OF rest] sim_step_stats [OF s1] Inr True s1
      show ?thesis
        by simp
    qed
  qed
qed

lemma length_records_from: "length (records_from k ss) = length ss"
  by (induction ss arbitrary: k) simp_all

lemma map_fst_records_from: "map fst (records_from k ss) = map Suc [k ..< k + length ss]"
proof (induction ss arbitrary: k)
  case Nil
  then show ?case by simp
next
  case (Cons s ss)
  have "[k ..< k + length (s # ss)] = k # [Suc k ..< Suc k + length ss]"
    by (subst upt_rec) simp
  with Cons.IH [of "Suc k"] show ?case
    by (simp add: step_record_def del: upt_Suc)
qed

lemma records_from_nth:
  "j < length ss \<Longrightarrow> records_from k ss ! j = step_record (k + j) (ss ! j)"
proof (induction ss arbitrary: k j)
  case Nil
  then show ?case by simp
next
  case (Cons s ss)
  then show ?case by (cases j) simp_all
qed

text \<open>A discrete walker on a plane without obstacles and portals: every step is
  executed and completes.\<close>

lemma check_intersection_empty_plane:
  "obstacles pl = [] \<Longrightarrow> portals pl = [] \<Longrightarrow>
   check_intersection isect pl cur nxt = Inr (NextPosition nxt)"
  by (simp add: check_intersection_def)

lemma has_possible_moves_empty_plane:
  "obstacles pl = [] \<Longrightarrow> portals pl = [] \<Longrightarrow> has_possible_moves isect w pl angles = Inr True"
  by (simp add: has_possible_moves_def possible_moves_def check_intersection_empty_plane
      is_obstacle_hit_def)

lemma second_to_last_snoc:
  "xs \<noteq> [] \<Longrightarrow> second_to_last (xs @ [x]) = Inr (last xs)"
  by (cases xs rule: rev_cases) (simp_all add: second_to_last_def nth_append)

lemma discrete_step_empty_plane:
  assumes "obstacles pl = []" "portals pl = []"
    and "walker_type (sim_walker st) = DISCRETE_WALKER" "path (sim_walker st) \<noteq> []"
  shows "\<exists>st'. sim_step isect pl n_steps t0 step inp st = Inr st' \<and>
           walker_type (sim_walker st') = DISCRETE_WALKER \<and> path (sim_walker st') \<noteq> []"
proof -
  obtain d where d: "get_next_move (sim_walker st) (move_rnd inp) = Inr d"
    using assms(3) by (simp add: get_next_move_def NORMAL_WALKER_def UNEVEN_STEP_WALKER_def
        DISCRETE_WALKER_def)
  define st1 where "st1 = st\<lparr>sim_walker := move (sim_walker st) (fst d) (snd d)\<rparr>"
  have w1: "walker_type (sim_walker st1) = DISCRETE_WALKER" "path (sim_walker st1) \<noteq> []"
    using assms(3) by (simp_all add: st1_def move_def)
  have "\<exists>q. second_to_last (get_path (sim_walker st1)) = Inr q"
    using assms(4) by (simp add: st1_def move_def get_path_def second_to_last_snoc)
  then have "\<exists>st2. position_changed_block n_steps t0 step (clock inp)
      (get_position (sim_walker st)) st1 = Inr st2"
    by (auto simp: position_changed_block_def Let_def crossed_y_axis_def accumulate_distances_def)
  then have "\<exists>st2. (if get_position (sim_walker st1) \<noteq> get_position (sim_walker st)
      then position_changed_block n_steps t0 step (clock inp)
             (get_position (sim_walker st)) st1
      else Inr st1) = Inr st2"
    by auto
  then obtain st2 where st2: "(if get_position (sim_walker st1) \<noteq> get_position (sim_walker st)
      then position_changed_block n_steps t0 step (clock inp)
             (get_position (sim_walker st)) st1
      else Inr st1) = Inr st2" ..
  then have "sim_walker st2 = sim_walker st1"
    by (auto split: if_splits dest: block_frame(1))
  moreover have "resolve st (NextPosition d) = Inr st1"
    by (simp add: resolve_def st1_def)
  then have "sim_step isect pl n_steps t0 step inp st = Inr (append_step_stats step st2)"
    using st2 d assms(1,2)
    by (simp add: sim_step_def check_intersection_empty_plane Let_def)
  ultimately show ?thesis
    using w1 by (simp add: append_step_stats_frame)
qed

lemma discrete_loop_empty_plane:
  assumes "obstacles pl = []" "portals pl = []"
    and "walker_type (sim_walker st) = DISCRETE_WALKER" "path (sim_walker st) \<noteq> []"
  shows "(\<exists>st'. sim_loop isect pl n_steps t0 inps step n st = Inr st') \<and>
         length (sim_loop_states isect pl n_steps t0 inps step n st) = n"
  using assms(3,4)
proof (induction n arbitrary: st step)
  case 0
  then show ?case by simp
next
  case (Suc n)
  from discrete_step_empty_plane [OF assms(1,2) Suc.prems] obtain s1 where
    s1: "sim_step isect pl n_steps t0 step (inps step) st = Inr s1"
    and w1: "walker_type (sim_walker s1) = DISCRETE_WALKER" "path (sim_walker s1) \<noteq> []"
    by blast
  from Suc.IH [OF w1, of "Suc step"] s1 assms(1,2) show ?case
    by (simp add: has_possible_moves_empty_plane)
qed

lemma build_plane_empty:
  "arg_obstacles a = [] \<Longrightarrow> arg_portals a = [] \<Longrightarrow> build_plane a = Plane_init"
  by (simp add: build_plane_def)

lemma new_walker_discrete:
  assumes "arg_walker_type a = DISCRETE_WALKER"
  shows "\<exists>w. new_walker a = Inr w \<and> walker_type w = DISCRETE_WALKER \<and> path w = [(0, 0)]"
  using assms
  by (auto simp: new_walker_def Walker_init_def ACCEPTABLE_WALKER_TYPES_def DISCRETE_WALKER_def
      split: option.splits)

section \<open>The liveness check\<close>

lemma check_moves_False_iff:
  "check_moves isect pl cur ms = Inr False \<longleftrightarrow>
   (\<forall>m\<in>set ms. \<exists>r. check_intersection isect pl cur (fst cur + fst m, snd cur + snd m) = Inr r \<and>
      is_obstacle_hit r)"
  by (induction ms) (auto split: sum.splits)

lemma check_moves_True:
  "check_moves isect pl cur ms = Inr True \<Longrightarrow>
   \<exists>m\<in>set ms. \<exists>r. check_intersection isect pl cur (fst cur + fst m, snd cur + snd m) = Inr r \<and>
      \<not> is_obstacle_hit r"
  by (induction ms) (auto split: sum.splits if_splits)

lemma check_moves_total:
  "\<forall>m\<in>set ms. \<exists>r. check_intersection isect pl cur (fst cur + fst m, snd cur + snd m) = Inr r \<Longrightarrow>
   \<exists>b. check_moves isect pl cur ms = Inr b"
  by (induction ms) (auto split: sum.splits)

lemma has_possible_moves_False_iff:
  "has_possible_moves isect w pl angles = Inr False \<longleftrightarrow>
   (\<forall>m\<in>set (probe_moves w angles).
      \<exists>r. check_intersection isect pl (get_position w)
             (fst (get_position w) + fst m, snd (get_position w) + snd m) = Inr r \<and>
          is_obstacle_hit r)"
proof -
  have A: "check_moves isect pl (get_position w) (possible_moves w) = Inr False \<longleftrightarrow>
    (\<forall>m\<in>set (possible_moves w).
      \<exists>r. check_intersection isect pl (get_position w)
             (fst (get_position w) + fst m, snd (get_position w) + snd m) = Inr r \<and>
          is_obstacle_hit r)"
    by (rule check_moves_False_iff)
  have B: "check_moves isect pl (get_position w) (random_directions angles) = Inr False \<longleftrightarrow>
    (\<forall>m\<in>set (random_directions angles).
      \<exists>r. check_intersection isect pl (get_position w)
             (fst (get_position w) + fst m, snd (get_position w) + snd m) = Inr r \<and>
          is_obstacle_hit r)"
    by (rule check_moves_False_iff)
  have C: "has_possible_moves isect w pl angles = Inr False \<longleftrightarrow>
    check_moves isect pl (get_position w) (possible_moves w) = Inr False \<and>
    (get_walker_type w = NORMAL_WALKER \<or> get_walker_type w = UNEVEN_STEP_WALKER \<longrightarrow>
       check_moves isect pl (get_position w) (random_directions angles) = Inr False)"
    by (auto simp: has_possible_moves_def NORMAL_WALKER_def UNEVEN_STEP_WALKER_def
        split: sum.splits bool.splits)
  show ?thesis
    unfolding C A B by (auto simp: probe_moves_def)
qed

lemma has_possible_moves_True:
  assumes "has_possible_moves isect w pl angles = Inr True"
  shows "\<exists>m\<in>set (probe_moves w angles).
      \<exists>r. check_intersection isect pl (get_position w)
             (fst (get_position w) + fst m, snd (get_position w) + snd m) = Inr r \<and>
          \<not> is_obstacle_hit r"
proof (cases "check_moves isect pl (get_position w) (possible_moves w) = Inr True")
  case True
  from check_moves_True [OF this] show ?thesis
    by (auto simp: probe_moves_def)
next
  case False
  with assms have
    "check_moves isect pl (get_position w) (random_directions angles) = Inr True \<and>
     (get_walker_type w = NORMAL_WALKER \<or> get_walker_type w = UNEVEN_STEP_WALKER)"
    by (auto simp: has_possible_moves_def NORMAL_WALKER_def UNEVEN_STEP_WALKER_def
        split: sum.splits bool.splits if_splits)
  then show ?thesis
    using check_moves_True [of isect pl "get_position w" "random_directions angles"]
    by (auto simp: probe_moves_def)
qed

lemma has_possible_moves_total:
  assumes "\<forall>m\<in>set (probe_moves w angles).
      \<exists>r. check_intersection isect pl (get_position w)
             (fst (get_position w) + fst m, snd (get_position w) + snd m) = Inr r"
  shows "\<exists>b. has_possible_moves isect w pl angles = Inr b"
proof -
  from assms have
    "\<exists>b. check_moves isect pl (get_position w) (possible_moves w) = Inr b"
    by (intro check_moves_total) (auto simp: probe_moves_def)
  moreover have "\<exists>b. check_moves isect pl (get_position w) (random_directions angles) = Inr b"
    if "get_walker_type w = NORMAL_WALKER \<or> get_walker_type w = UNEVEN_STEP_WALKER"
    using assms that by (intro check_moves_total) (auto simp: probe_moves_def)
  ultimately show ?thesis
    by (auto simp: has_possible_moves_def NORMAL_WALKER_def UNEVEN_STEP_WALKER_def
        split: sum.splits bool.splits)
qed

text \<open>
  The probes of \<open>has_possible_moves\<close>, each by \<open>check_intersection\<close> from the current
  position: the four unit moves along the axes and the move back to the origin, and for
  the two continuous kinds of walker 100 random directions on the unit circle after them.
  When the call returns true, a probe resolved to an outcome that is not an obstacle (the
  next position or a portal); it returns false exactly when every probe resolves to an
  obstacle. Only when every probe returns is the call known to return.
\<close>

lemma has_possible_moves_probes:
  "possible_moves w =
     [(0, 1), (0, -1), (1, 0), (-1, 0), (- fst (get_position w), - snd (get_position w))] \<and>
   probe_moves w angles =
     possible_moves w @
     (if get_walker_type w \<in> {NORMAL_WALKER, UNEVEN_STEP_WALKER}
      then random_directions angles else []) \<and>
   length (random_directions angles) = 100 \<and>
   (\<forall>d\<in>set (random_directions angles). (fst d)\<^sup>2 + (snd d)\<^sup>2 = 1) \<and>
   (\<forall>r nxt. check_intersection isect pl (get_position w) nxt = Inr r \<longrightarrow>
      (\<not> is_obstacle_hit r \<longleftrightarrow>
         r = NextPosition nxt \<or> (\<exists>po. r = Intersected ''portal'' (PortalObj po)))) \<and>
   (has_possible_moves isect w pl angles = Inr True \<longrightarrow>
      (\<exists>m\<in>set (probe_moves w angles).
         \<exists>r. check_intersection isect pl (get_position w)
                (fst (get_position w) + fst m, snd (get_position w) + snd m) = Inr r \<and>
             \<not> is_obstacle_hit r)) \<and>
   (has_possible_moves isect w pl angles = Inr False \<longleftrightarrow>
      (\<forall>m\<in>set (probe_moves w angles).
         \<exists>r. check_intersection isect pl (get_position w)
                (fst (get_position w) + fst m, snd (get_position w) + snd m) = Inr r \<and>
             is_obstacle_hit r)) \<and>
   ((\<forall>m\<in>set (probe_moves w angles).
       \<exists>r. check_intersection isect pl (get_position w)
              (fst (get_position w) + fst m, snd (get_position w) + snd m) = Inr r) \<longrightarrow>
    has_possible_moves isect w pl angles =
      Inr (\<exists>m\<in>set (probe_moves w angles).
             \<exists>r. check_intersection isect pl (get_position w)
                    (fst (get_position w) + fst m, snd (get_position w) + snd m) = Inr r \<and>
                 \<not> is_obstacle_hit r))"
proof (intro conjI allI impI)
  show "possible_moves w =
     [(0, 1), (0, -1), (1, 0), (-1, 0), (- fst (get_position w), - snd (get_position w))]"
    by (simp add: possible_moves_def UP_def DOWN_def RIGHT_def LEFT_def)
  show "probe_moves w angles =
     possible_moves w @
     (if get_walker_type w \<in> {NORMAL_WALKER, UNEVEN_STEP_WALKER}
      then random_directions angles else [])"
    by (simp add: probe_moves_def)
  show "length (random_directions angles) = 100"
    by (simp add: random_directions_def)
  show "\<forall>d\<in>set (random_directions angles). (fst d)\<^sup>2 + (snd d)\<^sup>2 = 1"
    by (auto simp: random_directions_def)
next
  fix r nxt
  assume "check_intersection isect pl (get_position w) nxt = Inr r"
  from check_intersection_cases [OF this]
  show "\<not> is_obstacle_hit r \<longleftrightarrow>
         r = NextPosition nxt \<or> (\<exists>po. r = Intersected ''portal'' (PortalObj po))"
    by (auto simp: is_obstacle_hit_def)
next
  assume "has_possible_moves isect w pl angles = Inr True"
  then show "\<exists>m\<in>set (probe_moves w angles).
         \<exists>r. check_intersection isect pl (get_position w)
                (fst (get_position w) + fst m, snd (get_position w) + snd m) = Inr r \<and>
             \<not> is_obstacle_hit r"
    by (rule has_possible_moves_True)
next
  show "has_possible_moves isect w pl angles = Inr False \<longleftrightarrow>
      (\<forall>m\<in>set (probe_moves w angles).
         \<exists>r. check_intersection isect pl (get_position w)
                (fst (get_position w) + fst m, snd (get_position w) + snd m) = Inr r \<and>
             is_obstacle_hit r)"
    by (rule has_possible_moves_False_iff)
next
  assume all: "\<forall>m\<in>set (probe_moves w angles).
       \<exists>r. check_intersection isect pl (get_position w)
              (fst (get_position w) + fst m, snd (get_position w) + snd m) = Inr r"
  from has_possible_moves_total [OF this] obtain b where
    b: "has_possible_moves isect w pl angles = Inr b" ..
  show "has_possible_moves isect w pl angles =
      Inr (\<exists>m\<in>set (probe_moves w angles).
             \<exists>r. check_intersection isect pl (get_position w)
                    (fst (get_position w) + fst m, snd (get_position w) + snd m) = Inr r \<and>
                 \<not> is_obstacle_hit r)"
  proof (cases b)
    case True
    with b has_possible_moves_True [of isect w pl angles] show ?thesis
      by simp
  next
    case False
    with b have "has_possible_moves isect w pl angles = Inr False" by simp
    then show ?thesis
      using has_possible_moves_False_iff [of isect w pl angles] by auto
  qed
qed

text \<open>The two examples: a free walker, and a walker in a box.\<close>

lemma has_possible_moves_examples:
  "has_possible_moves axis_intersection fresh_discrete obstacle_plane (\<lambda>k. 0) = Inr True"
  "get_position boxed_walker = (3, 0)"
  "has_possible_moves axis_intersection boxed_walker box_plane (\<lambda>k. 0) = Inr False"
  by (simp_all add: boxed_walker_def box_plane_def example_defs step_defs probe_defs)

text \<open>
  Claim C8. The claim is that \<open>has_possible_moves\<close> returns true if any probe resolves to
  an outcome that is not an obstacle. On the plane with the obstacle from (0,1/4) to (0,5)
  a discrete walker at the origin has such a probe: the path of the move down, from (0,0)
  to (0,-1), meets nothing, and \<open>check_intersection\<close> returns the next position. But the
  move up is probed first; its path from (0,0) to (0,1) runs along the obstacle, their
  intersection is the stretch from (0,1/4) to (0,1), not a point, and
  \<open>check_intersection\<close> raises AttributeError. \<open>has_possible_moves\<close> raises with it instead
  of returning true, and so does the first step of a simulation on this plane.
\<close>

theorem has_possible_moves_raises_despite_free_probe:
  "get_position fresh_discrete = (0, 0) \<and>
   possible_moves fresh_discrete = [(0, 1), (0, -1), (1, 0), (-1, 0), (0, 0)] \<and>
   check_intersection axis_intersection upper_axis_obstacle_plane (0, 0) (0, -1) =
     Inr (NextPosition (0, -1)) \<and>
   \<not> is_obstacle_hit (NextPosition (0, -1)) \<and>
   axis_intersection ((0, 0), (0, 1)) ((0, 1/4), (0, 5)) = OtherGeom \<and>
   check_intersection axis_intersection upper_axis_obstacle_plane (0, 0) (0, 1) =
     Inl AttributeError \<and>
   has_possible_moves axis_intersection fresh_discrete upper_axis_obstacle_plane (\<lambda>k. 0) =
     Inl AttributeError \<and>
   run_simulation axis_intersection
     \<lparr>arg_walker_type = 3, arg_steps = 1, arg_simulations = 1, arg_n_steps = 1,
      arg_portals = [], arg_obstacles = [((0, 1/4), (0, 5))], arg_weights = None\<rparr>
     (\<lambda>i. 0) (\<lambda>i. picks [1]) = Inl AttributeError"
  by (simp add: upper_axis_obstacle_plane_def run_simulation_def build_plane_def run_once_def
      new_walker_def Walker_init_def ACCEPTABLE_WALKER_TYPES_def example_defs probe_defs
      get_position_def)

section \<open>The counter of crossings of the y-axis\<close>

lemmas crossing_example_defs =
  state_left_def state_back_on_axis_def state_across_def

text \<open>The three example states are the states of the run described.\<close>

lemma crossing_example_run:
  "sim_loop axis_intersection Plane_init 5 0 (picks [3, 2, 2]) 0 1
     (start_run fresh_discrete initial_state) = Inr state_left"
  "sim_step axis_intersection Plane_init 5 0 1 (picks [3, 2, 2] 1) state_left =
     Inr state_back_on_axis"
  "sim_step axis_intersection Plane_init 5 0 2 (picks [3, 2, 2] 2) state_back_on_axis =
     Inr state_across"
  by (simp_all add: crossing_example_defs example_defs step_defs probe_defs)

text \<open>
  Claim C9, as stated, fails. In the third step of the example the previous x is exactly
  on the axis and the position two steps before, (-1,0), is on the side opposite to the
  current position (1,0), but the counter is not incremented; in the second step the
  walker moves from (-1,0) onto the axis, which is neither case of the claim, and the
  counter is incremented.
\<close>

theorem crossing_counter_counterexample:
  "sim_step axis_intersection Plane_init 5 0 2 (picks [3, 2, 2] 2) state_back_on_axis =
     Inr state_across \<and>
   get_path (sim_walker state_across) = [(0, 0), (-1, 0), (0, 0), (1, 0)] \<and>
   get_position (sim_walker state_back_on_axis) = (0, 0) \<and>
   get_position (sim_walker state_across) = (1, 0) \<and>
   spec_crossed_y_axis (0, 0) (1, 0) (-1, 0) \<and>
   simulation_y_axis_cross_count state_across =
     simulation_y_axis_cross_count state_back_on_axis \<and>
   sim_step axis_intersection Plane_init 5 0 1 (picks [3, 2, 2] 1) state_left =
     Inr state_back_on_axis \<and>
   get_position (sim_walker state_left) = (-1, 0) \<and>
   \<not> spec_crossed_y_axis (-1, 0) (0, 0) (0, 0) \<and>
   simulation_y_axis_cross_count state_back_on_axis =
     simulation_y_axis_cross_count state_left + 1"
proof -
  have p: "get_path (sim_walker state_across) = [(0, 0), (-1, 0), (0, 0), (1, 0)]"
    "get_position (sim_walker state_back_on_axis) = (0, 0)"
    "get_position (sim_walker state_across) = (1, 0)"
    "get_position (sim_walker state_left) = (-1, 0)"
    "simulation_y_axis_cross_count state_across = 1"
    "simulation_y_axis_cross_count state_back_on_axis = 1"
    "simulation_y_axis_cross_count state_left = 0"
    by (simp_all add: crossing_example_defs example_defs step_defs)
  have q: "spec_crossed_y_axis (0, 0) (1, 0) (-1, 0)"
    "\<not> spec_crossed_y_axis (-1, 0) (0, 0) (0, 0)"
    by (simp_all add: spec_crossed_y_axis_def)
  from crossing_example_run(2,3) p q show ?thesis
    by simp
qed

lemma crossed_y_axis_Inr:
  assumes "crossed_y_axis prev w = Inr c"
  shows "c \<longleftrightarrow>
     fst prev * fst (get_position w) < 0 \<or>
     (fst (get_position w) = 0 \<and> fst prev \<noteq> 0 \<and>
      (\<exists>q. second_to_last (get_path w) = Inr q \<and> fst q \<noteq> 0))"
proof -
  let ?p = "fst prev" and ?c = "fst (get_position w)"
  consider (neg) "?p * ?c < 0" | (zero) "?p * ?c = 0" | (pos) "0 < ?p * ?c"
    by linarith
  then show ?thesis
  proof cases
    case neg
    with assms show ?thesis
      by (simp add: crossed_y_axis_def)
  next
    case zero
    with assms obtain q where q: "second_to_last (get_path w) = Inr q"
      and c: "c \<longleftrightarrow> ?p * fst q \<noteq> 0"
      by (auto simp: crossed_y_axis_def split: sum.splits)
    from zero have "?p = 0 \<or> ?c = 0"
      by simp
    with zero q c show ?thesis
      by auto
  next
    case pos
    then have "?c \<noteq> 0" "\<not> ?p * ?c < 0" "?p * ?c \<noteq> 0"
      by auto
    with assms show ?thesis
      by (simp add: crossed_y_axis_def)
  qed
qed

lemma accumulate_distances_frame:
  "sim_walker (accumulate_distances st) = sim_walker st"
  "simulation_y_axis_cross_count (accumulate_distances st) = simulation_y_axis_cross_count st"
  "simulation_exit_time (accumulate_distances st) = simulation_exit_time st"
  "simulation_steps_to_exit (accumulate_distances st) = simulation_steps_to_exit st"
  "total_distance_from_origin (accumulate_distances st) = total_distance_from_origin st"
  "total_distance_from_x_axis (accumulate_distances st) = total_distance_from_x_axis st"
  "total_distance_from_y_axis (accumulate_distances st) = total_distance_from_y_axis st"
  by (simp_all add: accumulate_distances_def)

lemma record_exit_frame:
  "sim_walker (record_exit t0 now st) = sim_walker st"
  "simulation_y_axis_cross_count (record_exit t0 now st) = simulation_y_axis_cross_count st"
  "simulation_distance_from_origin (record_exit t0 now st) = simulation_distance_from_origin st"
  "simulation_distance_from_x_axis (record_exit t0 now st) = simulation_distance_from_x_axis st"
  "simulation_distance_from_y_axis (record_exit t0 now st) = simulation_distance_from_y_axis st"
  "total_distance_from_origin (record_exit t0 now st) = total_distance_from_origin st"
  "total_distance_from_x_axis (record_exit t0 now st) = total_distance_from_x_axis st"
  "total_distance_from_y_axis (record_exit t0 now st) = total_distance_from_y_axis st"
  by (simp_all add: record_exit_def)

lemma fold_totals_frame:
  "sim_walker (fold_totals n_steps step st) = sim_walker st"
  "simulation_y_axis_cross_count (fold_totals n_steps step st) = simulation_y_axis_cross_count st"
  "simulation_exit_time (fold_totals n_steps step st) = simulation_exit_time st"
  "simulation_steps_to_exit (fold_totals n_steps step st) = simulation_steps_to_exit st"
  "simulation_distance_from_origin (fold_totals n_steps step st) =
     simulation_distance_from_origin st"
  "simulation_distance_from_x_axis (fold_totals n_steps step st) =
     simulation_distance_from_x_axis st"
  "simulation_distance_from_y_axis (fold_totals n_steps step st) =
     simulation_distance_from_y_axis st"
  by (simp_all add: fold_totals_def)

text \<open>The block, as the composition of its parts.\<close>

lemma block_InrE:
  assumes "position_changed_block n_steps t0 step now prev st1 = Inr st2"
  obtains c where
    "crossed_y_axis prev (sim_walker st1) = Inr c"
    "st2 = fold_totals n_steps step (record_exit t0 now
       (if c then (accumulate_distances st1)\<lparr>simulation_y_axis_cross_count :=
                     simulation_y_axis_cross_count (accumulate_distances st1) + 1\<rparr>
        else accumulate_distances st1))"
  using assms unfolding position_changed_block_def Let_def
  by (auto simp: accumulate_distances_frame(1) split: sum.splits)

lemma block_count:
  assumes "position_changed_block n_steps t0 step now prev st1 = Inr st2"
  shows "\<exists>c. crossed_y_axis prev (sim_walker st1) = Inr c \<and>
           simulation_y_axis_cross_count st2 =
             simulation_y_axis_cross_count st1 + (if c then 1 else 0)"
proof -
  from assms obtain c where c: "crossed_y_axis prev (sim_walker st1) = Inr c"
    and st2: "st2 = fold_totals n_steps step (record_exit t0 now
       (if c then (accumulate_distances st1)\<lparr>simulation_y_axis_cross_count :=
                     simulation_y_axis_cross_count (accumulate_distances st1) + 1\<rparr>
        else accumulate_distances st1))"
    by (rule block_InrE)
  have "simulation_y_axis_cross_count st2 =
      simulation_y_axis_cross_count st1 + (if c then 1 else 0)"
    by (cases c)
      (simp_all add: st2 fold_totals_frame record_exit_frame accumulate_distances_frame)
  with c show ?thesis by blast
qed

lemma resolve_count:
  "resolve st r = Inr st1 \<Longrightarrow>
   simulation_y_axis_cross_count st1 = simulation_y_axis_cross_count st"
  by (drule resolve_cases) auto

lemma resolve_InrE:
  assumes "resolve st r = Inr st1"
  obtains (mv) p where "r = NextPosition p"
      "st1 = st\<lparr>sim_walker := move (sim_walker st) (fst p) (snd p)\<rparr>"
    | (tp) po where "r = Intersected ''portal'' (PortalObj po)"
      "st1 = st\<lparr>sim_walker := set_position (sim_walker st)
                (fst (portal_destination po)) (snd (portal_destination po))\<rparr>"
    | (ob) ty ob where "r = Intersected ty ob" "ty \<noteq> ''portal''"
      "st1 = st\<lparr>simulation_unsuccessful_moves := simulation_unsuccessful_moves st + 1\<rparr>"
proof -
  from resolve_cases [OF assms] show thesis
  proof (elim disjE exE conjE)
    fix p
    assume "r = NextPosition p"
      "st1 = st\<lparr>sim_walker := move (sim_walker st) (fst p) (snd p)\<rparr>"
    then show thesis by (rule mv)
  next
    fix po
    assume "r = Intersected ''portal'' (PortalObj po)"
      "st1 = st\<lparr>sim_walker := set_position (sim_walker st)
                (fst (portal_destination po)) (snd (portal_destination po))\<rparr>"
    then show thesis by (rule tp)
  next
    fix ty ob
    assume "r = Intersected ty ob" "ty \<noteq> ''portal''"
      "st1 = st\<lparr>simulation_unsuccessful_moves := simulation_unsuccessful_moves st + 1\<rparr>"
    then show thesis by (rule ob)
  qed
qed

text \<open>
  Claim C9, amended. At a completed step whose resolution changed the walker's position
  the counter of crossings is incremented, by 1, exactly when either the x-coordinates of
  the previous and the current position have opposite signs, or the current x-coordinate
  is exactly on the axis while the previous x-coordinate and the x-coordinate of the
  second-to-last path entry are both off the axis. When the step committed an ordinary
  move of a walker whose position was its last path entry, the second-to-last path entry
  is the previous position, and the second case is that the walker arrives on the axis
  from off it.
\<close>

theorem crossing_counter_rule:
  assumes "sim_step isect pl n_steps t0 step inp st = Inr st'"
    and "get_position (sim_walker st') \<noteq> get_position (sim_walker st)"
  shows "simulation_y_axis_cross_count st' =
           simulation_y_axis_cross_count st +
           (if fst (get_position (sim_walker st)) * fst (get_position (sim_walker st')) < 0 \<or>
               (fst (get_position (sim_walker st')) = 0 \<and>
                fst (get_position (sim_walker st)) \<noteq> 0 \<and>
                (\<exists>q. second_to_last (get_path (sim_walker st')) = Inr q \<and> fst q \<noteq> 0))
            then 1 else 0) \<and>
         (walker_inv (sim_walker st) \<and>
         get_steps (sim_walker st') = get_steps (sim_walker st) + 1 \<longrightarrow>
         simulation_y_axis_cross_count st' =
           simulation_y_axis_cross_count st +
           (if fst (get_position (sim_walker st)) * fst (get_position (sim_walker st')) < 0 \<or>
               (fst (get_position (sim_walker st')) = 0 \<and>
                fst (get_position (sim_walker st)) \<noteq> 0)
            then 1 else 0))"
proof -
  from assms(1) obtain nxt r st1 st2 where
    res: "resolve st r = Inr st1"
    and blk: "(if get_position (sim_walker st1) \<noteq> get_position (sim_walker st)
      then position_changed_block n_steps t0 step (clock inp)
             (get_position (sim_walker st)) st1
      else Inr st1) = Inr st2"
    and st': "st' = append_step_stats step st2"
    by (rule sim_step_InrE)
  have w2: "sim_walker st2 = sim_walker st1"
    using blk by (auto split: if_splits dest: block_frame(1))
  then have w': "sim_walker st' = sim_walker st1"
    by (simp add: st' append_step_stats_frame)
  with assms(2) blk have
    "position_changed_block n_steps t0 step (clock inp) (get_position (sim_walker st)) st1 =
       Inr st2"
    by (simp split: if_splits)
  from block_count [OF this] obtain c where
    c: "crossed_y_axis (get_position (sim_walker st)) (sim_walker st1) = Inr c"
    and cnt: "simulation_y_axis_cross_count st2 =
      simulation_y_axis_cross_count st1 + (if c then 1 else 0)"
    by blast
  have cnt': "simulation_y_axis_cross_count st' =
      simulation_y_axis_cross_count st + (if c then 1 else 0)"
    using cnt resolve_count [OF res] by (simp add: st' append_step_stats_frame)
  from crossed_y_axis_Inr [OF c] cnt' w'
  have first: "simulation_y_axis_cross_count st' =
           simulation_y_axis_cross_count st +
           (if fst (get_position (sim_walker st)) * fst (get_position (sim_walker st')) < 0 \<or>
               (fst (get_position (sim_walker st')) = 0 \<and>
                fst (get_position (sim_walker st)) \<noteq> 0 \<and>
                (\<exists>q. second_to_last (get_path (sim_walker st')) = Inr q \<and> fst q \<noteq> 0))
            then 1 else 0)"
    by simp
  have second: "walker_inv (sim_walker st) \<and>
         get_steps (sim_walker st') = get_steps (sim_walker st) + 1 \<longrightarrow>
         simulation_y_axis_cross_count st' =
           simulation_y_axis_cross_count st +
           (if fst (get_position (sim_walker st)) * fst (get_position (sim_walker st')) < 0 \<or>
               (fst (get_position (sim_walker st')) = 0 \<and>
                fst (get_position (sim_walker st)) \<noteq> 0)
            then 1 else 0)"
  proof
    assume a: "walker_inv (sim_walker st) \<and>
         get_steps (sim_walker st') = get_steps (sim_walker st) + 1"
    from res have "\<exists>dx dy. sim_walker st1 = move (sim_walker st) dx dy"
    proof (cases rule: resolve_InrE)
      case (mv p)
      then have "sim_walker st1 = move (sim_walker st) (fst p) (snd p)"
        by simp
      then show ?thesis by blast
    next
      case (tp po)
      with a w' show ?thesis
        by (simp add: get_steps_def set_position_def)
    next
      case (ob ty ob)
      with a w' show ?thesis
        by (simp add: get_steps_def)
    qed
    with w' obtain dx dy where p: "sim_walker st' = move (sim_walker st) dx dy"
      by auto
    from a have ne: "path (sim_walker st) \<noteq> []"
      and lst: "last (path (sim_walker st)) = get_position (sim_walker st)"
      by (auto simp: walker_inv_def get_path_def get_steps_def)
    have "second_to_last (get_path (sim_walker st')) = Inr (get_position (sim_walker st))"
      using ne lst by (simp add: p move_def get_path_def second_to_last_snoc)
    with first show "simulation_y_axis_cross_count st' =
           simulation_y_axis_cross_count st +
           (if fst (get_position (sim_walker st)) * fst (get_position (sim_walker st')) < 0 \<or>
               (fst (get_position (sim_walker st')) = 0 \<and>
                fst (get_position (sim_walker st)) \<noteq> 0)
            then 1 else 0)"
      by simp
  qed
  from first second show ?thesis
    by (rule conjI)
qed

theorem crossing_counter_rule_witness:
  "sim_step axis_intersection Plane_init 5 0 1 (picks [3, 2, 2] 1) state_left =
     Inr state_back_on_axis \<and>
   get_position (sim_walker state_back_on_axis) \<noteq> get_position (sim_walker state_left) \<and>
   walker_inv (sim_walker state_left) \<and>
   get_steps (sim_walker state_back_on_axis) = get_steps (sim_walker state_left) + 1 \<and>
   fst (get_position (sim_walker state_back_on_axis)) = 0 \<and>
   fst (get_position (sim_walker state_left)) = -1 \<and>
   simulation_y_axis_cross_count state_left = 0 \<and>
   simulation_y_axis_cross_count state_back_on_axis = 1"
proof -
  have h1: "sim_step axis_intersection Plane_init 5 0 1 (picks [3, 2, 2] 1) state_left =
     Inr state_back_on_axis"
    by (rule crossing_example_run)
  have h2: "get_position (sim_walker state_back_on_axis) \<noteq> get_position (sim_walker state_left)"
    by (simp add: crossing_example_defs example_defs step_defs)
  have h3: "walker_inv (sim_walker state_left) \<and>
    get_steps (sim_walker state_back_on_axis) = get_steps (sim_walker state_left) + 1"
    by (simp add: walker_inv_def crossing_example_defs example_defs step_defs)
  have s: "fst (get_position (sim_walker state_back_on_axis)) = 0"
    "fst (get_position (sim_walker state_left)) = -1"
    "simulation_y_axis_cross_count state_left = 0"
    by (simp_all add: crossing_example_defs example_defs step_defs)
  from crossing_counter_rule [OF h1 h2] h1 h2 h3 s show ?thesis
    by simp
qed

section \<open>The exit from the radius\<close>

lemma get_distance_position:
  "get_position w = get_position w' \<Longrightarrow> get_distance w = get_distance w'"
  by (simp add: get_position_def get_distance_def)

lemma resolve_exit:
  assumes "resolve st r = Inr st1"
  shows "simulation_exit_time st1 = simulation_exit_time st"
    and "simulation_steps_to_exit st1 = simulation_steps_to_exit st"
  using assms by (cases rule: resolve_InrE; simp)+

lemma block_exit:
  assumes "position_changed_block n_steps t0 step now prev st1 = Inr st2"
  shows "simulation_exit_time st2 =
           (if simulation_exit_time st1 = None \<and> get_distance (sim_walker st1) > 10
            then Some (now - t0) else simulation_exit_time st1)"
    and "simulation_steps_to_exit st2 =
           (if simulation_exit_time st1 = None \<and> get_distance (sim_walker st1) > 10
            then get_steps (sim_walker st1) else simulation_steps_to_exit st1)"
proof -
  from assms obtain c where
    st2: "st2 = fold_totals n_steps step (record_exit t0 now
       (if c then (accumulate_distances st1)\<lparr>simulation_y_axis_cross_count :=
                     simulation_y_axis_cross_count (accumulate_distances st1) + 1\<rparr>
        else accumulate_distances st1))"
    by (rule block_InrE)
  show "simulation_exit_time st2 =
           (if simulation_exit_time st1 = None \<and> get_distance (sim_walker st1) > 10
            then Some (now - t0) else simulation_exit_time st1)"
    by (cases c)
      (simp_all add: st2 fold_totals_frame record_exit_def accumulate_distances_frame)
  show "simulation_steps_to_exit st2 =
           (if simulation_exit_time st1 = None \<and> get_distance (sim_walker st1) > 10
            then get_steps (sim_walker st1) else simulation_steps_to_exit st1)"
    by (cases c)
      (simp_all add: st2 fold_totals_frame record_exit_def accumulate_distances_frame)
qed

text \<open>What a completed step does to the two metrics of the exit.\<close>

lemma sim_step_exit:
  assumes "sim_step isect pl n_steps t0 step inp st = Inr st'"
  shows "simulation_exit_time st' =
           (if get_position (sim_walker st') \<noteq> get_position (sim_walker st) \<and>
               simulation_exit_time st = None \<and> get_distance (sim_walker st') > 10
            then Some (clock inp - t0) else simulation_exit_time st)"
    and "simulation_steps_to_exit st' =
           (if get_position (sim_walker st') \<noteq> get_position (sim_walker st) \<and>
               simulation_exit_time st = None \<and> get_distance (sim_walker st') > 10
            then get_steps (sim_walker st') else simulation_steps_to_exit st)"
proof -
  from assms obtain nxt r st1 st2 where
    res: "resolve st r = Inr st1"
    and blk: "(if get_position (sim_walker st1) \<noteq> get_position (sim_walker st)
      then position_changed_block n_steps t0 step (clock inp)
             (get_position (sim_walker st)) st1
      else Inr st1) = Inr st2"
    and st': "st' = append_step_stats step st2"
    by (rule sim_step_InrE)
  have w2: "sim_walker st2 = sim_walker st1"
    using blk by (auto split: if_splits dest: block_frame(1))
  then have w': "sim_walker st' = sim_walker st1"
    by (simp add: st' append_step_stats_frame)
  note e1 = resolve_exit [OF res]
  show "simulation_exit_time st' =
           (if get_position (sim_walker st') \<noteq> get_position (sim_walker st) \<and>
               simulation_exit_time st = None \<and> get_distance (sim_walker st') > 10
            then Some (clock inp - t0) else simulation_exit_time st)"
  proof (cases "get_position (sim_walker st1) \<noteq> get_position (sim_walker st)")
    case True
    with blk have "position_changed_block n_steps t0 step (clock inp)
             (get_position (sim_walker st)) st1 = Inr st2"
      by simp
    from block_exit(1) [OF this] True e1 w' show ?thesis
      by (simp add: st' append_step_stats_frame)
  next
    case False
    with blk have "st2 = st1" by simp
    with False e1 w' show ?thesis
      by (simp add: st' append_step_stats_frame)
  qed
  show "simulation_steps_to_exit st' =
           (if get_position (sim_walker st') \<noteq> get_position (sim_walker st) \<and>
               simulation_exit_time st = None \<and> get_distance (sim_walker st') > 10
            then get_steps (sim_walker st') else simulation_steps_to_exit st)"
  proof (cases "get_position (sim_walker st1) \<noteq> get_position (sim_walker st)")
    case True
    with blk have "position_changed_block n_steps t0 step (clock inp)
             (get_position (sim_walker st)) st1 = Inr st2"
      by simp
    from block_exit(2) [OF this] True e1 w' show ?thesis
      by (simp add: st' append_step_stats_frame)
  next
    case False
    with blk have "st2 = st1" by simp
    with False e1 w' show ?thesis
      by (simp add: st' append_step_stats_frame)
  qed
qed

text \<open>The three cases of a completed step: the metrics are already recorded; the
  distance exceeds 10 for the first time; it does not yet.\<close>

lemma sim_step_exit_recorded:
  assumes "sim_step isect pl n_steps t0 step inp st = Inr st'"
    and "simulation_exit_time st \<noteq> None"
  shows "simulation_exit_time st' = simulation_exit_time st \<and>
         simulation_steps_to_exit st' = simulation_steps_to_exit st"
  using sim_step_exit [OF assms(1)] assms(2) by simp

lemma sim_step_exit_first:
  assumes "sim_step isect pl n_steps t0 step inp st = Inr st'"
    and "simulation_exit_time st = None" "get_distance (sim_walker st) \<le> 10"
    and "get_distance (sim_walker st') > 10"
  shows "simulation_exit_time st' = Some (clock inp - t0) \<and>
         simulation_steps_to_exit st' = get_steps (sim_walker st')"
proof -
  from assms(3,4) have "get_position (sim_walker st') \<noteq> get_position (sim_walker st)"
    using get_distance_position [of "sim_walker st'" "sim_walker st"] by auto
  with sim_step_exit [OF assms(1)] assms(2,4) show ?thesis
    by simp
qed

lemma sim_step_exit_not_yet:
  assumes "sim_step isect pl n_steps t0 step inp st = Inr st'"
    and "simulation_exit_time st = None" "get_distance (sim_walker st') \<le> 10"
  shows "simulation_exit_time st' = None \<and>
         simulation_steps_to_exit st' = simulation_steps_to_exit st"
  using sim_step_exit [OF assms(1)] assms(2,3) by simp

text \<open>The states of the executed steps: a state and the ones after it.\<close>

lemma sim_loop_states_Cons:
  assumes "sim_loop_states isect pl n_steps t0 inps step n st = s # ss"
  obtains k where "n = Suc k"
    "sim_step isect pl n_steps t0 step (inps step) st = Inr s"
    "ss = sim_loop_states isect pl n_steps t0 inps (Suc step) k s"
  using assms
  by (cases n) (auto split: sum.splits bool.splits)

text \<open>The state at the end of the loop is the last of the states of the executed steps,
  or the state at the start when no step was executed.\<close>

lemma sim_loop_last_state:
  assumes "sim_loop isect pl n_steps t0 inps step n st = Inr st'"
  shows "st' = last (st # sim_loop_states isect pl n_steps t0 inps step n st)"
  using assms
proof (induction n arbitrary: st step)
  case 0
  then show ?case by simp
next
  case (Suc n)
  show ?case
  proof (cases "has_possible_moves isect (sim_walker st) pl (probe_angles (inps step))")
    case (Inl e)
    with Suc.prems show ?thesis by simp
  next
    case (Inr b)
    show ?thesis
    proof (cases b)
      case False
      with Inr Suc.prems show ?thesis by simp
    next
      case True
      with Inr Suc.prems obtain s1 where
        s1: "sim_step isect pl n_steps t0 step (inps step) st = Inr s1"
        and rest: "sim_loop isect pl n_steps t0 inps (Suc step) n s1 = Inr st'"
        by (auto split: sum.splits)
      from Suc.IH [OF rest] Inr True s1 show ?thesis
        by simp
    qed
  qed
qed

declare sim_loop_states.simps(2) [simp del]

lemma exit_stays_recorded:
  assumes "simulation_exit_time st \<noteq> None"
    and "s \<in> set (sim_loop_states isect pl n_steps t0 inps step n st)"
  shows "simulation_exit_time s = simulation_exit_time st \<and>
         simulation_steps_to_exit s = simulation_steps_to_exit st"
  using assms
proof (induction n arbitrary: st step)
  case 0
  then show ?case by simp
next
  case (Suc n)
  from Suc.prems(2) obtain s1 ss where
    tr: "sim_loop_states isect pl n_steps t0 inps step (Suc n) st = s1 # ss"
    by (cases "sim_loop_states isect pl n_steps t0 inps step (Suc n) st") simp_all
  then obtain k where k: "Suc n = Suc k"
    and s1: "sim_step isect pl n_steps t0 step (inps step) st = Inr s1"
    and ss: "ss = sim_loop_states isect pl n_steps t0 inps (Suc step) k s1"
    by (rule sim_loop_states_Cons)
  from sim_step_exit_recorded [OF s1 Suc.prems(1)] have
    e1: "simulation_exit_time s1 = simulation_exit_time st"
    "simulation_steps_to_exit s1 = simulation_steps_to_exit st"
    by simp_all
  from Suc.prems(2) tr have "s = s1 \<or> s \<in> set ss" by simp
  then show ?case
  proof
    assume "s = s1"
    with e1 show ?thesis by simp
  next
    assume "s \<in> set ss"
    with ss k have "s \<in> set (sim_loop_states isect pl n_steps t0 inps (Suc step) n s1)"
      by simp
    from Suc.IH [OF _ this] e1 Suc.prems(1) show ?thesis
      by simp
  qed
qed

lemma exit_not_recorded:
  assumes "simulation_exit_time st = None"
    and "\<forall>s \<in> set (sim_loop_states isect pl n_steps t0 inps step n st).
           get_distance (sim_walker s) \<le> 10"
    and "s \<in> set (sim_loop_states isect pl n_steps t0 inps step n st)"
  shows "simulation_exit_time s = None \<and>
         simulation_steps_to_exit s = simulation_steps_to_exit st"
  using assms
proof (induction n arbitrary: st step)
  case 0
  then show ?case by simp
next
  case (Suc n)
  from Suc.prems(3) obtain s1 ss where
    tr: "sim_loop_states isect pl n_steps t0 inps step (Suc n) st = s1 # ss"
    by (cases "sim_loop_states isect pl n_steps t0 inps step (Suc n) st") simp_all
  then obtain k where k: "Suc n = Suc k"
    and s1: "sim_step isect pl n_steps t0 step (inps step) st = Inr s1"
    and ss: "ss = sim_loop_states isect pl n_steps t0 inps (Suc step) k s1"
    by (rule sim_loop_states_Cons)
  from Suc.prems(2) tr have d1: "get_distance (sim_walker s1) \<le> 10"
    and dss: "\<forall>s \<in> set ss. get_distance (sim_walker s) \<le> 10"
    by simp_all
  from sim_step_exit_not_yet [OF s1 Suc.prems(1) d1] have
    e1: "simulation_exit_time s1 = None"
    "simulation_steps_to_exit s1 = simulation_steps_to_exit st"
    by simp_all
  from Suc.prems(3) tr have "s = s1 \<or> s \<in> set ss" by simp
  then show ?case
  proof
    assume "s = s1"
    with e1 show ?thesis by simp
  next
    assume "s \<in> set ss"
    with ss k dss have
      "s \<in> set (sim_loop_states isect pl n_steps t0 inps (Suc step) n s1)"
      "\<forall>s \<in> set (sim_loop_states isect pl n_steps t0 inps (Suc step) n s1).
           get_distance (sim_walker s) \<le> 10"
      by simp_all
    from Suc.IH [OF e1(1) this(2) this(1)] e1 show ?thesis
      by simp
  qed
qed

lemma exit_recorded_at_first_crossing:
  assumes "simulation_exit_time st = None" "get_distance (sim_walker st) \<le> 10"
    and "j < length (sim_loop_states isect pl n_steps t0 inps step n st)"
    and "get_distance (sim_walker (sim_loop_states isect pl n_steps t0 inps step n st ! j)) > 10"
    and "\<forall>i<j. get_distance (sim_walker (sim_loop_states isect pl n_steps t0 inps step n st ! i))
           \<le> 10"
    and "j \<le> m" "m < length (sim_loop_states isect pl n_steps t0 inps step n st)"
  shows "simulation_exit_time (sim_loop_states isect pl n_steps t0 inps step n st ! m) =
           Some (clock (inps (step + j)) - t0) \<and>
         simulation_steps_to_exit (sim_loop_states isect pl n_steps t0 inps step n st ! m) =
           get_steps (sim_walker (sim_loop_states isect pl n_steps t0 inps step n st ! j))"
  using assms
proof (induction n arbitrary: st step j m)
  case 0
  then show ?case by simp
next
  case (Suc n)
  from Suc.prems(3) obtain s1 ss where
    tr: "sim_loop_states isect pl n_steps t0 inps step (Suc n) st = s1 # ss"
    by (cases "sim_loop_states isect pl n_steps t0 inps step (Suc n) st") simp_all
  then obtain k where k: "Suc n = Suc k"
    and s1: "sim_step isect pl n_steps t0 step (inps step) st = Inr s1"
    and ss: "ss = sim_loop_states isect pl n_steps t0 inps (Suc step) k s1"
    by (rule sim_loop_states_Cons)
  from k ss have ss': "ss = sim_loop_states isect pl n_steps t0 inps (Suc step) n s1"
    by simp
  show ?case
  proof (cases j)
    case 0
    with Suc.prems(4) tr have d1: "get_distance (sim_walker s1) > 10"
      by simp
    from sim_step_exit_first [OF s1 Suc.prems(1,2) d1] have
      e1: "simulation_exit_time s1 = Some (clock (inps step) - t0)"
      "simulation_steps_to_exit s1 = get_steps (sim_walker s1)"
      by simp_all
    show ?thesis
    proof (cases m)
      case 0
      with \<open>j = 0\<close> tr e1 show ?thesis by simp
    next
      case (Suc m')
      with Suc.prems(7) tr have "ss ! m' \<in> set ss"
        by simp
      with ss' have "ss ! m' \<in> set (sim_loop_states isect pl n_steps t0 inps (Suc step) n s1)"
        by simp
      from exit_stays_recorded [OF _ this] e1 have
        "simulation_exit_time (ss ! m') = Some (clock (inps step) - t0) \<and>
         simulation_steps_to_exit (ss ! m') = get_steps (sim_walker s1)"
        by simp
      with \<open>j = 0\<close> Suc tr show ?thesis by simp
    qed
  next
    case (Suc j')
    with Suc.prems(5) tr have d1: "get_distance (sim_walker s1) \<le> 10"
      by auto
    from sim_step_exit_not_yet [OF s1 Suc.prems(1) d1] have
      e1: "simulation_exit_time s1 = None"
      by simp
    from Suc Suc.prems(6) obtain m' where m': "m = Suc m'" "j' \<le> m'"
      by (cases m) auto
    have a: "j' < length (sim_loop_states isect pl n_steps t0 inps (Suc step) n s1)"
      "m' < length (sim_loop_states isect pl n_steps t0 inps (Suc step) n s1)"
      using Suc.prems(3,7) tr ss' Suc m' by auto
    have b: "get_distance (sim_walker
        (sim_loop_states isect pl n_steps t0 inps (Suc step) n s1 ! j')) > 10"
      using Suc.prems(4) tr ss' Suc by simp
    have c: "\<forall>i<j'. get_distance (sim_walker
        (sim_loop_states isect pl n_steps t0 inps (Suc step) n s1 ! i)) \<le> 10"
    proof (intro allI impI)
      fix i assume "i < j'"
      then have "Suc i < j" using Suc by simp
      with Suc.prems(5) have
        "get_distance (sim_walker
           (sim_loop_states isect pl n_steps t0 inps step (Suc n) st ! Suc i)) \<le> 10"
        by blast
      with tr ss' show "get_distance (sim_walker
        (sim_loop_states isect pl n_steps t0 inps (Suc step) n s1 ! i)) \<le> 10"
        by simp
    qed
    from Suc.IH [OF e1 d1 a(1) b c m'(2) a(2)] tr ss' Suc m' show ?thesis
      by simp
  qed
qed

text \<open>
  Claim C7. In a run, at the first step at whose end the walker's distance from the
  origin exceeds 10, the walker's step count and the elapsed time are recorded as the
  metrics of the exit, and they keep these values at every later step of the run. When
  the distance never exceeds 10 the metrics keep their initial values, step count 0 and
  no time. The state at the end of the loop is the last of these states, and the per-run
  record takes the two metrics from it.
\<close>

theorem exit_radius_recorded_once:
  assumes "Walker_init wt ws = Inr w"
  shows "(j < length (sim_loop_states isect pl n_steps t0 inps 0 n (start_run w st0)) \<and>
          get_distance (sim_walker
            (sim_loop_states isect pl n_steps t0 inps 0 n (start_run w st0) ! j)) > 10 \<and>
          (\<forall>i<j. get_distance (sim_walker
            (sim_loop_states isect pl n_steps t0 inps 0 n (start_run w st0) ! i)) \<le> 10) \<and>
          j \<le> m \<and> m < length (sim_loop_states isect pl n_steps t0 inps 0 n (start_run w st0)) \<longrightarrow>
            simulation_steps_to_exit
              (sim_loop_states isect pl n_steps t0 inps 0 n (start_run w st0) ! m) =
              get_steps (sim_walker
                (sim_loop_states isect pl n_steps t0 inps 0 n (start_run w st0) ! j)) \<and>
            simulation_exit_time
              (sim_loop_states isect pl n_steps t0 inps 0 n (start_run w st0) ! m) =
              Some (clock (inps j) - t0)) \<and>
         ((\<forall>s \<in> set (sim_loop_states isect pl n_steps t0 inps 0 n (start_run w st0)).
             get_distance (sim_walker s) \<le> 10) \<and>
          sim_loop isect pl n_steps t0 inps 0 n (start_run w st0) = Inr stf \<longrightarrow>
            simulation_steps_to_exit stf = 0 \<and> simulation_exit_time stf = None) \<and>
         (sim_loop isect pl n_steps t0 inps 0 n (start_run w st0) = Inr stf \<longrightarrow>
            stf = last (start_run w st0 #
                    sim_loop_states isect pl n_steps t0 inps 0 n (start_run w st0)) \<and>
            (\<exists>rs stats. last (multi_simulation_stats (finish_run i stf)) = (i + 1, rs, stats) \<and>
               number_of_steps_to_exit rs = simulation_steps_to_exit stf \<and>
               time_to_exit rs = simulation_exit_time stf))"
proof -
  let ?s0 = "start_run w st0"
  let ?tr = "sim_loop_states isect pl n_steps t0 inps 0 n ?s0"
  from assms have "get_position w = (0, 0)"
    by (auto simp: Walker_init_def get_position_def split: if_splits)
  then have d0: "get_distance (sim_walker ?s0) \<le> 10"
    by (simp add: start_run_def get_distance_def get_position_def)
  have e0: "simulation_exit_time ?s0 = None" "simulation_steps_to_exit ?s0 = 0"
    by (simp_all add: start_run_def)
  have A: "simulation_steps_to_exit (?tr ! m) = get_steps (sim_walker (?tr ! j)) \<and>
      simulation_exit_time (?tr ! m) = Some (clock (inps j) - t0)"
    if "j < length ?tr \<and> get_distance (sim_walker (?tr ! j)) > 10 \<and>
        (\<forall>i<j. get_distance (sim_walker (?tr ! i)) \<le> 10) \<and> j \<le> m \<and> m < length ?tr"
    using exit_recorded_at_first_crossing [OF e0(1) d0, of j isect pl n_steps t0 inps 0 n m] that
    by simp
  have B: "simulation_steps_to_exit stf = 0 \<and> simulation_exit_time stf = None"
    if "(\<forall>s \<in> set ?tr. get_distance (sim_walker s) \<le> 10) \<and>
        sim_loop isect pl n_steps t0 inps 0 n ?s0 = Inr stf"
  proof (cases "?tr = []")
    case True
    with that sim_loop_last_state [of isect pl n_steps t0 inps 0 n ?s0 stf]
    have "stf = ?s0" by simp
    with e0 show ?thesis by simp
  next
    case False
    with that sim_loop_last_state [of isect pl n_steps t0 inps 0 n ?s0 stf]
    have "stf = last ?tr" by simp
    with False have "stf \<in> set ?tr" by simp
    from exit_not_recorded [OF e0(1) _ this] that e0(2) show ?thesis
      by simp
  qed
  have C: "stf = last (?s0 # ?tr) \<and>
      (\<exists>rs stats. last (multi_simulation_stats (finish_run i stf)) = (i + 1, rs, stats) \<and>
         number_of_steps_to_exit rs = simulation_steps_to_exit stf \<and>
         time_to_exit rs = simulation_exit_time stf)"
    if "sim_loop isect pl n_steps t0 inps 0 n ?s0 = Inr stf"
    using sim_loop_last_state [OF that]
    by (simp add: finish_run_def Let_def per_run_record_def)
  from A B C show ?thesis
    by blast
qed

lemma example_runs_first_step:
  "sim_step axis_intersection portal_plane 2 0 0 (picks [1, 0] 0)
     (start_run fresh_discrete initial_state) = Inr state_below"
  "sim_step axis_intersection obstacle_plane 2 0 0 (picks [1, 0] 0)
     (start_run fresh_discrete initial_state) = Inr state_below"
  "has_possible_moves axis_intersection (sim_walker (start_run fresh_discrete initial_state))
     portal_plane (probe_angles (picks [1, 0] 0)) = Inr True"
  "has_possible_moves axis_intersection (sim_walker (start_run fresh_discrete initial_state))
     obstacle_plane (probe_angles (picks [1, 0] 0)) = Inr True"
  "has_possible_moves axis_intersection (sim_walker state_below)
     portal_plane (probe_angles (picks [1, 0] 1)) = Inr True"
  "has_possible_moves axis_intersection (sim_walker state_below)
     obstacle_plane (probe_angles (picks [1, 0] 1)) = Inr True"
  by (simp_all add: example_defs step_defs probe_defs)

theorem exit_radius_recorded_once_witness:
  "Walker_init DISCRETE_WALKER default_weights = Inr fresh_discrete \<and>
   length portal_run_states = 2 \<and>
   get_distance (sim_walker (portal_run_states ! 0)) \<le> 10 \<and>
   get_distance (sim_walker (portal_run_states ! 1)) > 10 \<and>
   simulation_steps_to_exit (portal_run_states ! 1) = 1 \<and>
   get_steps (sim_walker (portal_run_states ! 1)) = 1 \<and>
   simulation_exit_time (portal_run_states ! 1) = Some 2 \<and>
   length obstacle_run_states = 2 \<and>
   get_distance (sim_walker (obstacle_run_states ! 0)) \<le> 10 \<and>
   get_distance (sim_walker (obstacle_run_states ! 1)) \<le> 10 \<and>
   (\<exists>stf. sim_loop axis_intersection obstacle_plane 2 0 (picks [1, 0]) 0 2
           (start_run fresh_discrete initial_state) = Inr stf \<and>
         simulation_steps_to_exit stf = 0 \<and> simulation_exit_time stf = None)"
proof -
  have h0: "Walker_init DISCRETE_WALKER default_weights = Inr fresh_discrete"
    by (simp add: Walker_init_def ACCEPTABLE_WALKER_TYPES_def fresh_discrete_def)
  obtain s2 where s2: "sim_step axis_intersection portal_plane 2 0 1 (picks [1, 0] 1)
      state_below = Inr s2"
    and p2: "get_distance (sim_walker s2) > 10" "get_steps (sim_walker s2) = 1"
    by (simp add: example_defs step_defs probe_defs sqrt_200_gt_10)
  obtain o2 where o2: "sim_step axis_intersection obstacle_plane 2 0 1 (picks [1, 0] 1)
      state_below = Inr o2"
    and q2: "get_distance (sim_walker o2) \<le> 10"
    by (simp add: example_defs step_defs probe_defs)
  have d1: "get_distance (sim_walker state_below) \<le> 10"
    by (simp add: example_defs step_defs)
  have ptr: "portal_run_states = [state_below, s2]"
    using example_runs_first_step s2
    by (simp add: portal_run_states_def sim_loop_states.simps eval_nat_numeral)
  have otr: "obstacle_run_states = [state_below, o2]"
    using example_runs_first_step o2
    by (simp add: obstacle_run_states_def sim_loop_states.simps eval_nat_numeral)
  have ol: "sim_loop axis_intersection obstacle_plane 2 0 (picks [1, 0]) 0 2
           (start_run fresh_discrete initial_state) = Inr o2"
    using example_runs_first_step o2
    by (simp add: eval_nat_numeral)
  have c2: "clock (picks [1, 0] 1) - 0 = 2"
    by (simp add: picks_def)
  note T1 = exit_radius_recorded_once [OF h0, of 1 axis_intersection portal_plane 2 0
      "picks [1, 0]" 2 initial_state 1 s2 0, folded portal_run_states_def]
  have P: "simulation_steps_to_exit (portal_run_states ! 1) =
      get_steps (sim_walker (portal_run_states ! 1)) \<and>
      simulation_exit_time (portal_run_states ! 1) = Some (clock (picks [1, 0] 1) - 0)"
  proof (rule T1 [THEN conjunct1, THEN mp])
    show "1 < length portal_run_states \<and>
      10 < get_distance (sim_walker (portal_run_states ! 1)) \<and>
      (\<forall>i<1. get_distance (sim_walker (portal_run_states ! i)) \<le> 10) \<and>
      1 \<le> (1::nat) \<and> 1 < length portal_run_states"
      using p2 d1 by (simp add: ptr)
  qed
  note T2 = exit_radius_recorded_once [OF h0, of 0 axis_intersection obstacle_plane 2 0
      "picks [1, 0]" 2 initial_state 0 o2 0, folded obstacle_run_states_def]
  have O: "simulation_steps_to_exit o2 = 0 \<and> simulation_exit_time o2 = None"
  proof (rule T2 [THEN conjunct2, THEN conjunct1, THEN mp])
    show "(\<forall>s\<in>set obstacle_run_states. get_distance (sim_walker s) \<le> 10) \<and>
      sim_loop axis_intersection obstacle_plane 2 0 (picks [1, 0]) 0 2
        (start_run fresh_discrete initial_state) = Inr o2"
      using q2 d1 ol by (simp add: otr)
  qed
  from h0 P O p2 q2 d1 ol c2 show ?thesis
    by (simp add: ptr otr)
qed

section \<open>The totals over the runs\<close>

lemma resolve_totals:
  assumes "resolve st r = Inr st1"
  shows "total_distance_from_origin st1 = total_distance_from_origin st"
    and "total_distance_from_x_axis st1 = total_distance_from_x_axis st"
    and "total_distance_from_y_axis st1 = total_distance_from_y_axis st"
  using assms by (cases rule: resolve_InrE; simp)+

lemma block_totals:
  assumes "position_changed_block n_steps t0 step now prev st1 = Inr st2"
  shows "total_distance_from_origin st2 =
           (if n_steps = int step + 1
            then total_distance_from_origin st1 + simulation_distance_from_origin st2
            else total_distance_from_origin st1)"
    and "total_distance_from_x_axis st2 =
           (if n_steps = int step + 1
            then total_distance_from_x_axis st1 + simulation_distance_from_x_axis st2
            else total_distance_from_x_axis st1)"
    and "total_distance_from_y_axis st2 =
           (if n_steps = int step + 1
            then total_distance_from_y_axis st1 + simulation_distance_from_y_axis st2
            else total_distance_from_y_axis st1)"
proof -
  from assms obtain c where
    st2: "st2 = fold_totals n_steps step (record_exit t0 now
       (if c then (accumulate_distances st1)\<lparr>simulation_y_axis_cross_count :=
                     simulation_y_axis_cross_count (accumulate_distances st1) + 1\<rparr>
        else accumulate_distances st1))"
    by (rule block_InrE)
  show "total_distance_from_origin st2 =
           (if n_steps = int step + 1
            then total_distance_from_origin st1 + simulation_distance_from_origin st2
            else total_distance_from_origin st1)"
    by (cases c)
      (simp_all add: st2 fold_totals_def record_exit_frame accumulate_distances_frame)
  show "total_distance_from_x_axis st2 =
           (if n_steps = int step + 1
            then total_distance_from_x_axis st1 + simulation_distance_from_x_axis st2
            else total_distance_from_x_axis st1)"
    by (cases c)
      (simp_all add: st2 fold_totals_def record_exit_frame accumulate_distances_frame)
  show "total_distance_from_y_axis st2 =
           (if n_steps = int step + 1
            then total_distance_from_y_axis st1 + simulation_distance_from_y_axis st2
            else total_distance_from_y_axis st1)"
    by (cases c)
      (simp_all add: st2 fold_totals_def record_exit_frame accumulate_distances_frame)
qed

text \<open>The totals over a completed step: the fold happens inside the block of a step
  that changed the position, and nowhere else.\<close>

lemma sim_step_totals:
  assumes "sim_step isect pl n_steps t0 step inp st = Inr st'"
  shows "total_distance_from_origin st' =
           (if n_steps = int step + 1 \<and>
               get_position (sim_walker st') \<noteq> get_position (sim_walker st)
            then total_distance_from_origin st + simulation_distance_from_origin st'
            else total_distance_from_origin st)"
    and "total_distance_from_x_axis st' =
           (if n_steps = int step + 1 \<and>
               get_position (sim_walker st') \<noteq> get_position (sim_walker st)
            then total_distance_from_x_axis st + simulation_distance_from_x_axis st'
            else total_distance_from_x_axis st)"
    and "total_distance_from_y_axis st' =
           (if n_steps = int step + 1 \<and>
               get_position (sim_walker st') \<noteq> get_position (sim_walker st)
            then total_distance_from_y_axis st + simulation_distance_from_y_axis st'
            else total_distance_from_y_axis st)"
proof -
  from assms obtain nxt r st1 st2 where
    res: "resolve st r = Inr st1"
    and blk: "(if get_position (sim_walker st1) \<noteq> get_position (sim_walker st)
      then position_changed_block n_steps t0 step (clock inp)
             (get_position (sim_walker st)) st1
      else Inr st1) = Inr st2"
    and st': "st' = append_step_stats step st2"
    by (rule sim_step_InrE)
  have w2: "sim_walker st2 = sim_walker st1"
    using blk by (auto split: if_splits dest: block_frame(1))
  then have w': "sim_walker st' = sim_walker st1"
    by (simp add: st' append_step_stats_frame)
  note t1 = resolve_totals [OF res]
  have "total_distance_from_origin st' =
           (if n_steps = int step + 1 \<and>
               get_position (sim_walker st') \<noteq> get_position (sim_walker st)
            then total_distance_from_origin st + simulation_distance_from_origin st'
            else total_distance_from_origin st) \<and>
        total_distance_from_x_axis st' =
           (if n_steps = int step + 1 \<and>
               get_position (sim_walker st') \<noteq> get_position (sim_walker st)
            then total_distance_from_x_axis st + simulation_distance_from_x_axis st'
            else total_distance_from_x_axis st) \<and>
        total_distance_from_y_axis st' =
           (if n_steps = int step + 1 \<and>
               get_position (sim_walker st') \<noteq> get_position (sim_walker st)
            then total_distance_from_y_axis st + simulation_distance_from_y_axis st'
            else total_distance_from_y_axis st)"
  proof (cases "get_position (sim_walker st1) \<noteq> get_position (sim_walker st)")
    case True
    with blk have b: "position_changed_block n_steps t0 step (clock inp)
             (get_position (sim_walker st)) st1 = Inr st2"
      by simp
    from block_totals [OF b] t1 True w' show ?thesis
      by (simp add: st' append_step_stats_frame)
  next
    case False
    with blk have "st2 = st1" by simp
    with False t1 w' show ?thesis
      by (simp add: st' append_step_stats_frame)
  qed
  then show "total_distance_from_origin st' =
           (if n_steps = int step + 1 \<and>
               get_position (sim_walker st') \<noteq> get_position (sim_walker st)
            then total_distance_from_origin st + simulation_distance_from_origin st'
            else total_distance_from_origin st)"
    and "total_distance_from_x_axis st' =
           (if n_steps = int step + 1 \<and>
               get_position (sim_walker st') \<noteq> get_position (sim_walker st)
            then total_distance_from_x_axis st + simulation_distance_from_x_axis st'
            else total_distance_from_x_axis st)"
    and "total_distance_from_y_axis st' =
           (if n_steps = int step + 1 \<and>
               get_position (sim_walker st') \<noteq> get_position (sim_walker st)
            then total_distance_from_y_axis st + simulation_distance_from_y_axis st'
            else total_distance_from_y_axis st)"
    by simp_all
qed

text \<open>
  Claim C6. The claim is that in every run, at the step whose index equals the cutoff
  \<open>n_steps\<close>, the run's cumulative sums of the three distances are folded into the
  totals over the runs. In the example run against the bar as an obstacle the cutoff is
  2: the walker steps down, and its second step, the one with the index of the cutoff, is
  rejected by the obstacle. At the end of that step the run's cumulative sums are 1, 1
  and 0, and the totals over the runs are still 0: nothing was folded. The result of the
  session of this one run reports the averages after N steps as 0, where the sums divided
  by the number of runs are 1, 1 and 0.
\<close>

theorem cutoff_fold_skipped_after_obstacle:
  "length obstacle_run_states = 2 \<and>
   length (simulation_stats (obstacle_run_states ! 1)) = 2 \<and>
   simulation_distance_from_origin (obstacle_run_states ! 1) = 1 \<and>
   simulation_distance_from_x_axis (obstacle_run_states ! 1) = 1 \<and>
   simulation_distance_from_y_axis (obstacle_run_states ! 1) = 0 \<and>
   total_distance_from_origin (obstacle_run_states ! 1) = 0 \<and>
   total_distance_from_x_axis (obstacle_run_states ! 1) = 0 \<and>
   total_distance_from_y_axis (obstacle_run_states ! 1) = 0 \<and>
   run_simulation axis_intersection
     \<lparr>arg_walker_type = 3, arg_steps = 2, arg_simulations = 1, arg_n_steps = 2,
      arg_portals = [], arg_obstacles = [((-1, 1/2), (1, 1/2))], arg_weights = None\<rparr>
     (\<lambda>i. 0) (\<lambda>i. picks [1, 0]) =
   Inr [(1,
         \<lparr>number_of_steps_to_exit = 0, time_to_exit = None,
          number_of_times_crossed_y_axis = 0,
          avg_distance_from_origin_after_N = 0,
          avg_distance_from_x_axis_after_N = 0,
          avg_distance_from_y_axis_after_N = 0,
          number_of_unsuccessful_moves = 1\<rparr>,
         [(1, \<lparr>avg_distance_from_x_axis = 1, avg_distance_from_y_axis = 0,
               avg_distance_from_origin = 1\<rparr>),
          (2, \<lparr>avg_distance_from_x_axis = 1 / 2, avg_distance_from_y_axis = 0,
               avg_distance_from_origin = 1 / 2\<rparr>)])]"
proof -
  have tr: "obstacle_run_states =
      [state_below,
       append_step_stats 1
         (state_below\<lparr>simulation_unsuccessful_moves := 1\<rparr>)]"
    using example_runs_first_step
    by (simp add: obstacle_run_states_def sim_loop_states.simps eval_nat_numeral)
      (simp add: example_defs step_defs probe_defs)
  have run: "run_simulation axis_intersection
     \<lparr>arg_walker_type = 3, arg_steps = 2, arg_simulations = 1, arg_n_steps = 2,
      arg_portals = [], arg_obstacles = [((-1, 1/2), (1, 1/2))], arg_weights = None\<rparr>
     (\<lambda>i. 0) (\<lambda>i. picks [1, 0]) =
   Inr [(1,
         \<lparr>number_of_steps_to_exit = 0, time_to_exit = None,
          number_of_times_crossed_y_axis = 0,
          avg_distance_from_origin_after_N = 0,
          avg_distance_from_x_axis_after_N = 0,
          avg_distance_from_y_axis_after_N = 0,
          number_of_unsuccessful_moves = 1\<rparr>,
         [(1, \<lparr>avg_distance_from_x_axis = 1, avg_distance_from_y_axis = 0,
               avg_distance_from_origin = 1\<rparr>),
          (2, \<lparr>avg_distance_from_x_axis = 1 / 2, avg_distance_from_y_axis = 0,
               avg_distance_from_origin = 1 / 2\<rparr>)])]"
    by (simp add: run_simulation_def build_plane_def run_once_def new_walker_def
        Walker_init_def ACCEPTABLE_WALKER_TYPES_def finish_run_def per_run_record_def
        numeral_2_eq_2 example_defs step_defs probe_defs)
  show ?thesis
    unfolding tr using run
    by (simp add: example_defs step_defs)
qed

section \<open>The closest intersection\<close>

lemma scan_obstacles_segments:
  "scan_obstacles isect cur nxt obs s =
   scan_segments isect cur nxt
     (map (\<lambda>ob. ((''obstacle'', ObstacleObj ob), (obstacle_start ob, obstacle_end ob))) obs) s"
  by (induction obs arbitrary: s) (simp_all split: geometry.splits)

lemma scan_portals_segments:
  "scan_portals isect cur nxt pos s =
   scan_segments isect cur nxt
     (map (\<lambda>po. ((''portal'', PortalObj po), (portal_start po, portal_end po))) pos) s"
  by (induction pos arbitrary: s) (simp_all split: geometry.splits)

lemma scan_segments_append:
  "scan_segments isect cur nxt (xs @ ys) s =
   (case scan_segments isect cur nxt xs s of
      Inl e \<Rightarrow> Inl e
    | Inr s1 \<Rightarrow> scan_segments isect cur nxt ys s1)"
  by (induction xs arbitrary: s) (simp_all split: geometry.splits)

lemma check_intersection_segments:
  "check_intersection isect pl cur nxt =
   (case scan_segments isect cur nxt (segments pl) \<lparr>min_distance = None, intersected = None\<rparr> of
      Inl e \<Rightarrow> Inl e
    | Inr s \<Rightarrow>
        (case intersected s of
           None \<Rightarrow> Inr (NextPosition nxt)
         | Some (ty, ob) \<Rightarrow> Inr (Intersected ty ob)))"
  by (simp add: check_intersection_def segments_def scan_segments_append
      scan_obstacles_segments scan_portals_segments split: sum.splits)

text \<open>A geometry that is not a point, met before any other, makes the check raise.\<close>

lemma scan_segments_other:
  assumes "\<forall>e \<in> set ys. isect (cur, nxt) (snd e) \<noteq> OtherGeom"
    and "isect (cur, nxt) (snd e) = OtherGeom"
  shows "scan_segments isect cur nxt (ys @ e # zs) s = Inl AttributeError"
  using assms(1)
proof (induction ys arbitrary: s)
  case Nil
  with assms(2) show ?case by simp
next
  case (Cons y ys)
  then show ?case
    by (cases "isect (cur, nxt) (snd y)") simp_all
qed

text \<open>
  The scan, when every geometry is empty or a point. Either no segment of the list is
  closer than the minimum at the start, and the state is unchanged; or the state at the
  end holds a segment of the list whose point is closer than that minimum, strictly
  closer than the points of the segments before it and at least as close as the points of
  the segments after it.
\<close>

lemma scan_segments_closest:
  assumes "\<forall>e \<in> set xs. isect (cur, nxt) (snd e) \<noteq> OtherGeom"
  shows "\<exists>s'. scan_segments isect cur nxt xs s = Inr s' \<and>
     ((s' = s \<and>
       (\<forall>e \<in> set xs. \<forall>q. isect (cur, nxt) (snd e) = PointGeom q \<longrightarrow>
          \<not> less_than_min (distance cur q) (min_distance s))) \<or>
      (\<exists>ys e zs p. xs = ys @ e # zs \<and> isect (cur, nxt) (snd e) = PointGeom p \<and>
         s' = \<lparr>min_distance = Some (distance cur p), intersected = Some (fst e)\<rparr> \<and>
         less_than_min (distance cur p) (min_distance s) \<and>
         (\<forall>e' \<in> set ys. \<forall>q. isect (cur, nxt) (snd e') = PointGeom q \<longrightarrow>
            distance cur p < distance cur q) \<and>
         (\<forall>e' \<in> set zs. \<forall>q. isect (cur, nxt) (snd e') = PointGeom q \<longrightarrow>
            distance cur p \<le> distance cur q)))"
  using assms
proof (induction xs arbitrary: s)
  case Nil
  then show ?case by simp
next
  case (Cons x xs)
  then have no: "\<forall>e \<in> set xs. isect (cur, nxt) (snd e) \<noteq> OtherGeom"
    and nx: "isect (cur, nxt) (snd x) \<noteq> OtherGeom"
    by simp_all
  note IH = Cons.IH [OF no]
  show ?case
  proof (cases "isect (cur, nxt) (snd x)")
    case Empty
    from IH [of s] obtain s' where s': "scan_segments isect cur nxt xs s = Inr s'"
      and alt: "(s' = s \<and>
       (\<forall>e \<in> set xs. \<forall>q. isect (cur, nxt) (snd e) = PointGeom q \<longrightarrow>
          \<not> less_than_min (distance cur q) (min_distance s))) \<or>
      (\<exists>ys e zs p. xs = ys @ e # zs \<and> isect (cur, nxt) (snd e) = PointGeom p \<and>
         s' = \<lparr>min_distance = Some (distance cur p), intersected = Some (fst e)\<rparr> \<and>
         less_than_min (distance cur p) (min_distance s) \<and>
         (\<forall>e' \<in> set ys. \<forall>q. isect (cur, nxt) (snd e') = PointGeom q \<longrightarrow>
            distance cur p < distance cur q) \<and>
         (\<forall>e' \<in> set zs. \<forall>q. isect (cur, nxt) (snd e') = PointGeom q \<longrightarrow>
            distance cur p \<le> distance cur q))"
      by blast
    have run: "scan_segments isect cur nxt (x # xs) s = Inr s'"
      using Empty s' by simp
    from alt show ?thesis
    proof
      assume "s' = s \<and>
       (\<forall>e \<in> set xs. \<forall>q. isect (cur, nxt) (snd e) = PointGeom q \<longrightarrow>
          \<not> less_than_min (distance cur q) (min_distance s))"
      with Empty run show ?thesis by auto
    next
      assume "\<exists>ys e zs p. xs = ys @ e # zs \<and> isect (cur, nxt) (snd e) = PointGeom p \<and>
         s' = \<lparr>min_distance = Some (distance cur p), intersected = Some (fst e)\<rparr> \<and>
         less_than_min (distance cur p) (min_distance s) \<and>
         (\<forall>e' \<in> set ys. \<forall>q. isect (cur, nxt) (snd e') = PointGeom q \<longrightarrow>
            distance cur p < distance cur q) \<and>
         (\<forall>e' \<in> set zs. \<forall>q. isect (cur, nxt) (snd e') = PointGeom q \<longrightarrow>
            distance cur p \<le> distance cur q)"
      then obtain ys e zs p where
        h: "xs = ys @ e # zs" "isect (cur, nxt) (snd e) = PointGeom p"
        "s' = \<lparr>min_distance = Some (distance cur p), intersected = Some (fst e)\<rparr>"
        "less_than_min (distance cur p) (min_distance s)"
        "\<forall>e' \<in> set ys. \<forall>q. isect (cur, nxt) (snd e') = PointGeom q \<longrightarrow>
            distance cur p < distance cur q"
        "\<forall>e' \<in> set zs. \<forall>q. isect (cur, nxt) (snd e') = PointGeom q \<longrightarrow>
            distance cur p \<le> distance cur q"
        by blast
      have "x # xs = (x # ys) @ e # zs"
        using h(1) by simp
      moreover have "\<forall>e' \<in> set (x # ys). \<forall>q. isect (cur, nxt) (snd e') = PointGeom q \<longrightarrow>
            distance cur p < distance cur q"
        using h(5) Empty by simp
      ultimately show ?thesis
        using run h(2,3,4,6) by blast
    qed
  next
    case OtherGeom
    with nx show ?thesis by simp
  next
    case (PointGeom px)
    let ?d = "distance cur px"
    show ?thesis
    proof (cases "less_than_min ?d (min_distance s)")
      case True
      let ?s1 = "\<lparr>min_distance = Some ?d, intersected = Some (fst x)\<rparr>"
      from IH [of ?s1] obtain s' where s': "scan_segments isect cur nxt xs ?s1 = Inr s'"
        and alt: "(s' = ?s1 \<and>
         (\<forall>e \<in> set xs. \<forall>q. isect (cur, nxt) (snd e) = PointGeom q \<longrightarrow>
            \<not> less_than_min (distance cur q) (min_distance ?s1))) \<or>
        (\<exists>ys e zs p. xs = ys @ e # zs \<and> isect (cur, nxt) (snd e) = PointGeom p \<and>
           s' = \<lparr>min_distance = Some (distance cur p), intersected = Some (fst e)\<rparr> \<and>
           less_than_min (distance cur p) (min_distance ?s1) \<and>
           (\<forall>e' \<in> set ys. \<forall>q. isect (cur, nxt) (snd e') = PointGeom q \<longrightarrow>
              distance cur p < distance cur q) \<and>
           (\<forall>e' \<in> set zs. \<forall>q. isect (cur, nxt) (snd e') = PointGeom q \<longrightarrow>
              distance cur p \<le> distance cur q))"
        by blast
      have run: "scan_segments isect cur nxt (x # xs) s = Inr s'"
        using PointGeom True s' by simp
      from alt show ?thesis
      proof
        assume a: "s' = ?s1 \<and>
         (\<forall>e \<in> set xs. \<forall>q. isect (cur, nxt) (snd e) = PointGeom q \<longrightarrow>
            \<not> less_than_min (distance cur q) (min_distance ?s1))"
        then have "\<forall>e' \<in> set xs. \<forall>q. isect (cur, nxt) (snd e') = PointGeom q \<longrightarrow>
            ?d \<le> distance cur q"
          by (auto simp: less_than_min_def)
        moreover have "x # xs = [] @ x # xs" by simp
        ultimately have "\<exists>ys e zs p. x # xs = ys @ e # zs \<and>
           isect (cur, nxt) (snd e) = PointGeom p \<and>
           s' = \<lparr>min_distance = Some (distance cur p), intersected = Some (fst e)\<rparr> \<and>
           less_than_min (distance cur p) (min_distance s) \<and>
           (\<forall>e' \<in> set ys. \<forall>q. isect (cur, nxt) (snd e') = PointGeom q \<longrightarrow>
              distance cur p < distance cur q) \<and>
           (\<forall>e' \<in> set zs. \<forall>q. isect (cur, nxt) (snd e') = PointGeom q \<longrightarrow>
              distance cur p \<le> distance cur q)"
          using a PointGeom True
          by (intro exI [of _ "[]"] exI [of _ x] exI [of _ xs] exI [of _ px]) simp
        with run show ?thesis by blast
      next
        assume "\<exists>ys e zs p. xs = ys @ e # zs \<and> isect (cur, nxt) (snd e) = PointGeom p \<and>
           s' = \<lparr>min_distance = Some (distance cur p), intersected = Some (fst e)\<rparr> \<and>
           less_than_min (distance cur p) (min_distance ?s1) \<and>
           (\<forall>e' \<in> set ys. \<forall>q. isect (cur, nxt) (snd e') = PointGeom q \<longrightarrow>
              distance cur p < distance cur q) \<and>
           (\<forall>e' \<in> set zs. \<forall>q. isect (cur, nxt) (snd e') = PointGeom q \<longrightarrow>
              distance cur p \<le> distance cur q)"
        then obtain ys e zs p where
          h: "xs = ys @ e # zs" "isect (cur, nxt) (snd e) = PointGeom p"
          "s' = \<lparr>min_distance = Some (distance cur p), intersected = Some (fst e)\<rparr>"
          "less_than_min (distance cur p) (min_distance ?s1)"
          "\<forall>e' \<in> set ys. \<forall>q. isect (cur, nxt) (snd e') = PointGeom q \<longrightarrow>
              distance cur p < distance cur q"
          "\<forall>e' \<in> set zs. \<forall>q. isect (cur, nxt) (snd e') = PointGeom q \<longrightarrow>
              distance cur p \<le> distance cur q"
          by blast
        from h(4) have lt: "distance cur p < ?d"
          by (simp add: less_than_min_def)
        with True have "less_than_min (distance cur p) (min_distance s)"
          by (auto simp: less_than_min_def split: option.splits)
        moreover have "x # xs = (x # ys) @ e # zs"
          using h(1) by simp
        moreover have "\<forall>e' \<in> set (x # ys). \<forall>q. isect (cur, nxt) (snd e') = PointGeom q \<longrightarrow>
              distance cur p < distance cur q"
          using h(5) PointGeom lt by auto
        ultimately show ?thesis
          using run h(2,3,6) by blast
      qed
    next
      case False
      from IH [of s] obtain s' where s': "scan_segments isect cur nxt xs s = Inr s'"
        and alt: "(s' = s \<and>
         (\<forall>e \<in> set xs. \<forall>q. isect (cur, nxt) (snd e) = PointGeom q \<longrightarrow>
            \<not> less_than_min (distance cur q) (min_distance s))) \<or>
        (\<exists>ys e zs p. xs = ys @ e # zs \<and> isect (cur, nxt) (snd e) = PointGeom p \<and>
           s' = \<lparr>min_distance = Some (distance cur p), intersected = Some (fst e)\<rparr> \<and>
           less_than_min (distance cur p) (min_distance s) \<and>
           (\<forall>e' \<in> set ys. \<forall>q. isect (cur, nxt) (snd e') = PointGeom q \<longrightarrow>
              distance cur p < distance cur q) \<and>
           (\<forall>e' \<in> set zs. \<forall>q. isect (cur, nxt) (snd e') = PointGeom q \<longrightarrow>
              distance cur p \<le> distance cur q))"
        by blast
      have run: "scan_segments isect cur nxt (x # xs) s = Inr s'"
        using PointGeom False s' by simp
      from alt show ?thesis
      proof
        assume "s' = s \<and>
         (\<forall>e \<in> set xs. \<forall>q. isect (cur, nxt) (snd e) = PointGeom q \<longrightarrow>
            \<not> less_than_min (distance cur q) (min_distance s))"
        with PointGeom False run show ?thesis by auto
      next
        assume "\<exists>ys e zs p. xs = ys @ e # zs \<and> isect (cur, nxt) (snd e) = PointGeom p \<and>
           s' = \<lparr>min_distance = Some (distance cur p), intersected = Some (fst e)\<rparr> \<and>
           less_than_min (distance cur p) (min_distance s) \<and>
           (\<forall>e' \<in> set ys. \<forall>q. isect (cur, nxt) (snd e') = PointGeom q \<longrightarrow>
              distance cur p < distance cur q) \<and>
           (\<forall>e' \<in> set zs. \<forall>q. isect (cur, nxt) (snd e') = PointGeom q \<longrightarrow>
              distance cur p \<le> distance cur q)"
        then obtain ys e zs p where
          h: "xs = ys @ e # zs" "isect (cur, nxt) (snd e) = PointGeom p"
          "s' = \<lparr>min_distance = Some (distance cur p), intersected = Some (fst e)\<rparr>"
          "less_than_min (distance cur p) (min_distance s)"
          "\<forall>e' \<in> set ys. \<forall>q. isect (cur, nxt) (snd e') = PointGeom q \<longrightarrow>
              distance cur p < distance cur q"
          "\<forall>e' \<in> set zs. \<forall>q. isect (cur, nxt) (snd e') = PointGeom q \<longrightarrow>
              distance cur p \<le> distance cur q"
          by blast
        from h(4) False have lt: "distance cur p < ?d"
          by (auto simp: less_than_min_def split: option.splits)
        have "x # xs = (x # ys) @ e # zs"
          using h(1) by simp
        moreover have "\<forall>e' \<in> set (x # ys). \<forall>q. isect (cur, nxt) (snd e') = PointGeom q \<longrightarrow>
              distance cur p < distance cur q"
          using h(5) PointGeom lt by auto
        ultimately show ?thesis
          using run h(2,3,4,6) by blast
      qed
    qed
  qed
qed

text \<open>
  The check, when every intersection of the path with a segment of the plane is empty or
  a single point: without an intersection it returns the next position unchanged;
  otherwise it returns the pair of an intersecting segment whose point is strictly closer
  to the current position than the points of all intersecting segments before it, in the
  order obstacles then portals, and at least as close as the points of those after it.
\<close>

lemma check_intersection_closest_first:
  assumes "\<forall>e \<in> set (segments pl). isect (cur, nxt) (snd e) \<noteq> OtherGeom"
  shows "((\<forall>e \<in> set (segments pl). isect (cur, nxt) (snd e) = Empty) \<longrightarrow>
            check_intersection isect pl cur nxt = Inr (NextPosition nxt)) \<and>
         ((\<exists>e \<in> set (segments pl). isect (cur, nxt) (snd e) \<noteq> Empty) \<longrightarrow>
            (\<exists>ys e zs p. segments pl = ys @ e # zs \<and>
               isect (cur, nxt) (snd e) = PointGeom p \<and>
               check_intersection isect pl cur nxt =
                 Inr (Intersected (fst (fst e)) (snd (fst e))) \<and>
               (\<forall>e' \<in> set ys. \<forall>q. isect (cur, nxt) (snd e') = PointGeom q \<longrightarrow>
                  distance cur p < distance cur q) \<and>
               (\<forall>e' \<in> set zs. \<forall>q. isect (cur, nxt) (snd e') = PointGeom q \<longrightarrow>
                  distance cur p \<le> distance cur q)))"
proof -
  let ?s0 = "\<lparr>min_distance = None, intersected = None\<rparr>"
  from scan_segments_closest [where xs = "segments pl" and isect = isect and cur = cur
      and nxt = nxt and s = ?s0, OF assms] obtain s' where
    s': "scan_segments isect cur nxt (segments pl) ?s0 = Inr s'"
    and alt: "(s' = ?s0 \<and>
       (\<forall>e \<in> set (segments pl). \<forall>q. isect (cur, nxt) (snd e) = PointGeom q \<longrightarrow>
          \<not> less_than_min (distance cur q) (min_distance ?s0))) \<or>
      (\<exists>ys e zs p. segments pl = ys @ e # zs \<and> isect (cur, nxt) (snd e) = PointGeom p \<and>
         s' = \<lparr>min_distance = Some (distance cur p), intersected = Some (fst e)\<rparr> \<and>
         less_than_min (distance cur p) (min_distance ?s0) \<and>
         (\<forall>e' \<in> set ys. \<forall>q. isect (cur, nxt) (snd e') = PointGeom q \<longrightarrow>
            distance cur p < distance cur q) \<and>
         (\<forall>e' \<in> set zs. \<forall>q. isect (cur, nxt) (snd e') = PointGeom q \<longrightarrow>
            distance cur p \<le> distance cur q))"
    by blast
  from alt show ?thesis
  proof
    assume a: "s' = ?s0 \<and>
       (\<forall>e \<in> set (segments pl). \<forall>q. isect (cur, nxt) (snd e) = PointGeom q \<longrightarrow>
          \<not> less_than_min (distance cur q) (min_distance ?s0))"
    have "isect (cur, nxt) (snd e) = Empty" if "e \<in> set (segments pl)" for e
      using a assms that
      by (cases "isect (cur, nxt) (snd e)") (auto simp: less_than_min_def)
    moreover have "check_intersection isect pl cur nxt = Inr (NextPosition nxt)"
      using s' a by (simp add: check_intersection_segments)
    ultimately show ?thesis by auto
  next
    assume "\<exists>ys e zs p. segments pl = ys @ e # zs \<and> isect (cur, nxt) (snd e) = PointGeom p \<and>
         s' = \<lparr>min_distance = Some (distance cur p), intersected = Some (fst e)\<rparr> \<and>
         less_than_min (distance cur p) (min_distance ?s0) \<and>
         (\<forall>e' \<in> set ys. \<forall>q. isect (cur, nxt) (snd e') = PointGeom q \<longrightarrow>
            distance cur p < distance cur q) \<and>
         (\<forall>e' \<in> set zs. \<forall>q. isect (cur, nxt) (snd e') = PointGeom q \<longrightarrow>
            distance cur p \<le> distance cur q)"
    then obtain ys e zs p where
      h: "segments pl = ys @ e # zs" "isect (cur, nxt) (snd e) = PointGeom p"
      "s' = \<lparr>min_distance = Some (distance cur p), intersected = Some (fst e)\<rparr>"
      "\<forall>e' \<in> set ys. \<forall>q. isect (cur, nxt) (snd e') = PointGeom q \<longrightarrow>
            distance cur p < distance cur q"
      "\<forall>e' \<in> set zs. \<forall>q. isect (cur, nxt) (snd e') = PointGeom q \<longrightarrow>
            distance cur p \<le> distance cur q"
      by blast
    have c: "check_intersection isect pl cur nxt =
        Inr (Intersected (fst (fst e)) (snd (fst e)))"
      using s' h(3) by (simp add: check_intersection_segments split: prod.splits)
    have "e \<in> set (segments pl)"
      using h(1) by simp
    with h(2) have "\<not> (\<forall>e \<in> set (segments pl). isect (cur, nxt) (snd e) = Empty)"
      by force
    with h c show ?thesis
      by blast
  qed
qed

text \<open>The check raises exactly when the path meets a segment of the plane in a geometry
  that is not a point.\<close>

lemma check_intersection_raises_iff:
  "check_intersection isect pl cur nxt = Inl AttributeError \<longleftrightarrow>
   (\<exists>e \<in> set (segments pl). isect (cur, nxt) (snd e) = OtherGeom)"
proof
  assume r: "check_intersection isect pl cur nxt = Inl AttributeError"
  show "\<exists>e \<in> set (segments pl). isect (cur, nxt) (snd e) = OtherGeom"
  proof (rule ccontr)
    assume "\<not> (\<exists>e \<in> set (segments pl). isect (cur, nxt) (snd e) = OtherGeom)"
    then have "\<forall>e \<in> set (segments pl). isect (cur, nxt) (snd e) \<noteq> OtherGeom"
      by simp
    from scan_segments_closest [where xs = "segments pl" and isect = isect and cur = cur
        and nxt = nxt and s = "\<lparr>min_distance = None, intersected = None\<rparr>", OF this] r
    show False
      by (auto simp: check_intersection_segments split: option.splits)
  qed
next
  assume "\<exists>e \<in> set (segments pl). isect (cur, nxt) (snd e) = OtherGeom"
  then obtain ys e zs where "segments pl = ys @ e # zs"
    "isect (cur, nxt) (snd e) = OtherGeom"
    "\<forall>y \<in> set ys. isect (cur, nxt) (snd y) \<noteq> OtherGeom"
    using split_list_first_prop [of "segments pl" "\<lambda>e. isect (cur, nxt) (snd e) = OtherGeom"]
    by blast
  with scan_segments_other [of ys isect cur nxt e zs]
  show "check_intersection isect pl cur nxt = Inl AttributeError"
    by (simp add: check_intersection_segments)
qed

text \<open>
  Claim C1. The claim is that for every current and next position the check returns the
  next position or a pair of type string and object. On the plane with the obstacle from
  (0,0) to (5,0) the path from (0,0) to (1,0) runs along the obstacle: their intersection
  is the stretch from (0,0) to (1,0), not a point, and the check raises AttributeError
  instead of returning the pair of the obstacle. A discrete walker at the origin of this
  plane probes this path in \<open>has_possible_moves\<close>, so the first step of a simulation
  raises as well.
\<close>

theorem check_intersection_collinear_overlap_raises:
  "axis_intersection ((0, 0), (1, 0)) ((0, 0), (5, 0)) = OtherGeom \<and>
   check_intersection axis_intersection axis_obstacle_plane (0, 0) (1, 0) =
     Inl AttributeError \<and>
   has_possible_moves axis_intersection fresh_discrete axis_obstacle_plane (\<lambda>k. 0) =
     Inl AttributeError \<and>
   run_simulation axis_intersection
     \<lparr>arg_walker_type = 3, arg_steps = 1, arg_simulations = 1, arg_n_steps = 1,
      arg_portals = [], arg_obstacles = [((0, 0), (5, 0))], arg_weights = None\<rparr>
     (\<lambda>i. 0) (\<lambda>i. picks [2]) = Inl AttributeError"
  by (simp add: axis_obstacle_plane_def run_simulation_def build_plane_def run_once_def
      new_walker_def Walker_init_def ACCEPTABLE_WALKER_TYPES_def example_defs probe_defs
      get_position_def)

section \<open>The cumulative sums of a run\<close>

lemma resolve_sums:
  assumes "resolve st r = Inr st1"
  shows "simulation_distance_from_origin st1 = simulation_distance_from_origin st"
    and "simulation_distance_from_x_axis st1 = simulation_distance_from_x_axis st"
    and "simulation_distance_from_y_axis st1 = simulation_distance_from_y_axis st"
  using assms by (cases rule: resolve_InrE; simp)+

lemma block_sums:
  assumes "position_changed_block n_steps t0 step now prev st1 = Inr st2"
  shows "simulation_distance_from_origin st2 =
           simulation_distance_from_origin st1 + get_distance (sim_walker st1)"
    and "simulation_distance_from_x_axis st2 =
           simulation_distance_from_x_axis st1 + distance_from_x_axis (sim_walker st1)"
    and "simulation_distance_from_y_axis st2 =
           simulation_distance_from_y_axis st1 + distance_from_y_axis (sim_walker st1)"
proof -
  from assms obtain c where
    st2: "st2 = fold_totals n_steps step (record_exit t0 now
       (if c then (accumulate_distances st1)\<lparr>simulation_y_axis_cross_count :=
                     simulation_y_axis_cross_count (accumulate_distances st1) + 1\<rparr>
        else accumulate_distances st1))"
    by (rule block_InrE)
  have acc: "simulation_distance_from_origin (accumulate_distances st1) =
      simulation_distance_from_origin st1 + get_distance (sim_walker st1)"
    "simulation_distance_from_x_axis (accumulate_distances st1) =
      simulation_distance_from_x_axis st1 + distance_from_x_axis (sim_walker st1)"
    "simulation_distance_from_y_axis (accumulate_distances st1) =
      simulation_distance_from_y_axis st1 + distance_from_y_axis (sim_walker st1)"
    by (simp_all add: accumulate_distances_def distance_from_x_axis_def
        distance_from_y_axis_def)
  show "simulation_distance_from_origin st2 =
           simulation_distance_from_origin st1 + get_distance (sim_walker st1)"
    by (cases c) (simp_all add: st2 fold_totals_frame record_exit_frame acc)
  show "simulation_distance_from_x_axis st2 =
           simulation_distance_from_x_axis st1 + distance_from_x_axis (sim_walker st1)"
    by (cases c) (simp_all add: st2 fold_totals_frame record_exit_frame acc)
  show "simulation_distance_from_y_axis st2 =
           simulation_distance_from_y_axis st1 + distance_from_y_axis (sim_walker st1)"
    by (cases c) (simp_all add: st2 fold_totals_frame record_exit_frame acc)
qed

text \<open>A completed step adds to each of the three sums the metric of the new position
  when the position changed, and nothing otherwise.\<close>

lemma sim_step_sums:
  assumes "sim_step isect pl n_steps t0 step inp st = Inr st'"
  shows "simulation_distance_from_origin st' =
           simulation_distance_from_origin st +
           (if get_position (sim_walker st') \<noteq> get_position (sim_walker st)
            then get_distance (sim_walker st') else 0)"
    and "simulation_distance_from_x_axis st' =
           simulation_distance_from_x_axis st +
           (if get_position (sim_walker st') \<noteq> get_position (sim_walker st)
            then distance_from_x_axis (sim_walker st') else 0)"
    and "simulation_distance_from_y_axis st' =
           simulation_distance_from_y_axis st +
           (if get_position (sim_walker st') \<noteq> get_position (sim_walker st)
            then distance_from_y_axis (sim_walker st') else 0)"
proof -
  from assms obtain nxt r st1 st2 where
    res: "resolve st r = Inr st1"
    and blk: "(if get_position (sim_walker st1) \<noteq> get_position (sim_walker st)
      then position_changed_block n_steps t0 step (clock inp)
             (get_position (sim_walker st)) st1
      else Inr st1) = Inr st2"
    and st': "st' = append_step_stats step st2"
    by (rule sim_step_InrE)
  have w2: "sim_walker st2 = sim_walker st1"
    using blk by (auto split: if_splits dest: block_frame(1))
  then have w': "sim_walker st' = sim_walker st1"
    by (simp add: st' append_step_stats_frame)
  note s1 = resolve_sums [OF res]
  have "simulation_distance_from_origin st' =
           simulation_distance_from_origin st +
           (if get_position (sim_walker st') \<noteq> get_position (sim_walker st)
            then get_distance (sim_walker st') else 0) \<and>
        simulation_distance_from_x_axis st' =
           simulation_distance_from_x_axis st +
           (if get_position (sim_walker st') \<noteq> get_position (sim_walker st)
            then distance_from_x_axis (sim_walker st') else 0) \<and>
        simulation_distance_from_y_axis st' =
           simulation_distance_from_y_axis st +
           (if get_position (sim_walker st') \<noteq> get_position (sim_walker st)
            then distance_from_y_axis (sim_walker st') else 0)"
  proof (cases "get_position (sim_walker st1) \<noteq> get_position (sim_walker st)")
    case True
    with blk have b: "position_changed_block n_steps t0 step (clock inp)
             (get_position (sim_walker st)) st1 = Inr st2"
      by simp
    from block_sums [OF b] s1 True w' show ?thesis
      by (simp add: st' append_step_stats_frame)
  next
    case False
    with blk have "st2 = st1" by simp
    with False s1 w' show ?thesis
      by (simp add: st' append_step_stats_frame)
  qed
  then show "simulation_distance_from_origin st' =
           simulation_distance_from_origin st +
           (if get_position (sim_walker st') \<noteq> get_position (sim_walker st)
            then get_distance (sim_walker st') else 0)"
    and "simulation_distance_from_x_axis st' =
           simulation_distance_from_x_axis st +
           (if get_position (sim_walker st') \<noteq> get_position (sim_walker st)
            then distance_from_x_axis (sim_walker st') else 0)"
    and "simulation_distance_from_y_axis st' =
           simulation_distance_from_y_axis st +
           (if get_position (sim_walker st') \<noteq> get_position (sim_walker st)
            then distance_from_y_axis (sim_walker st') else 0)"
    by simp_all
qed

text \<open>Over the states of the executed steps, a sum that every step increases by the
  contribution of the step is the sum at the start plus the cumulative sum of the
  contributions.\<close>

lemma trace_sums:
  assumes stepf: "\<And>step inp st st'. sim_step isect pl n_steps t0 step inp st = Inr st' \<Longrightarrow>
      g st' = g st + (if get_position (sim_walker st') \<noteq> get_position (sim_walker st)
                      then f (sim_walker st') else 0)"
    and "k < length (sim_loop_states isect pl n_steps t0 inps step n st)"
  shows "g (sim_loop_states isect pl n_steps t0 inps step n st ! k) =
         g st + cumulative_sum f (sim_walker st)
                  (map sim_walker (sim_loop_states isect pl n_steps t0 inps step n st)) k"
  using assms(2)
proof (induction n arbitrary: st step k)
  case 0
  then show ?case by simp
next
  case (Suc n)
  let ?tr = "sim_loop_states isect pl n_steps t0 inps step (Suc n) st"
  from Suc.prems obtain s ss where tr: "?tr = s # ss"
    by (cases ?tr) auto
  then obtain m where m: "Suc n = Suc m"
    and s: "sim_step isect pl n_steps t0 step (inps step) st = Inr s"
    and ss: "ss = sim_loop_states isect pl n_steps t0 inps (Suc step) m s"
    by (rule sim_loop_states_Cons)
  from m have mn: "m = n" by simp
  note g1 = stepf [OF s]
  show ?case
  proof (cases k)
    case 0
    with g1 show ?thesis
      by (simp add: tr cumulative_sum_def)
  next
    case (Suc j)
    with Suc.prems tr have j: "j < length ss" by simp
    from Suc.IH [of j "Suc step" s] j ss mn
    have "g (ss ! j) = g s + cumulative_sum f (sim_walker s) (map sim_walker ss) j"
      by simp
    with g1 Suc show ?thesis
      by (simp add: tr cumulative_sum_def)
  qed
qed

lemma run_records_cumulative:
  assumes "sim_loop isect pl n_steps t0 inps 0 n (start_run w st0) = Inr st''"
  shows "simulation_stats st'' =
         map (cumulative_record w
                (map sim_walker
                   (sim_loop_states isect pl n_steps t0 inps 0 n (start_run w st0))))
           [0 ..< length (sim_loop_states isect pl n_steps t0 inps 0 n (start_run w st0))]"
proof -
  let ?s = "start_run w st0"
  let ?tr = "sim_loop_states isect pl n_steps t0 inps 0 n ?s"
  have z: "simulation_distance_from_origin ?s = 0" "simulation_distance_from_x_axis ?s = 0"
    "simulation_distance_from_y_axis ?s = 0" "sim_walker ?s = w" "simulation_stats ?s = []"
    by (simp_all add: start_run_def)
  from sim_loop_stats [OF assms] have stats: "simulation_stats st'' = records_from 0 ?tr"
    by (simp add: z)
  have "records_from 0 ?tr ! k = cumulative_record w (map sim_walker ?tr) k"
    if k: "k < length ?tr" for k
  proof -
    have o: "simulation_distance_from_origin (?tr ! k) =
        cumulative_sum get_distance w (map sim_walker ?tr) k"
      using trace_sums [where g = simulation_distance_from_origin and f = get_distance,
          OF sim_step_sums(1) k] by (simp add: z)
    have x: "simulation_distance_from_x_axis (?tr ! k) =
        cumulative_sum distance_from_x_axis w (map sim_walker ?tr) k"
      using trace_sums [where g = simulation_distance_from_x_axis and f = distance_from_x_axis,
          OF sim_step_sums(2) k] by (simp add: z)
    have y: "simulation_distance_from_y_axis (?tr ! k) =
        cumulative_sum distance_from_y_axis w (map sim_walker ?tr) k"
      using trace_sums [where g = simulation_distance_from_y_axis and f = distance_from_y_axis,
          OF sim_step_sums(3) k] by (simp add: z)
    show ?thesis
      using k by (simp add: records_from_nth step_record_def cumulative_record_def o x y)
  qed
  then have "records_from 0 ?tr = map (cumulative_record w (map sim_walker ?tr)) [0 ..< length ?tr]"
    by (intro nth_equalityI) (simp_all add: length_records_from)
  with stats show ?thesis by simp
qed
text \<open>A discrete walker on a plane without obstacles and portals commits the move it
  draws, in every step.\<close>

lemma discrete_step_walker:
  assumes "obstacles pl = []" "portals pl = []"
    and "walker_type (sim_walker st) = DISCRETE_WALKER"
    and "sim_step isect pl n_steps t0 step inp st = Inr st'"
  shows "sim_walker st' =
         move (sim_walker st) (fst (discrete_draw (move_rnd inp)))
           (snd (discrete_draw (move_rnd inp)))"
proof -
  let ?d = "discrete_draw (move_rnd inp)"
  have d: "get_next_move (sim_walker st) (move_rnd inp) = Inr ?d"
    using assms(3) by (simp add: get_next_move_def NORMAL_WALKER_def UNEVEN_STEP_WALKER_def
        DISCRETE_WALKER_def discrete_draw_def)
  have c: "check_intersection isect pl (get_position (sim_walker st)) ?d =
      Inr (NextPosition ?d)"
    using assms(1,2) by (rule check_intersection_empty_plane)
  have r: "resolve st (NextPosition ?d) =
      Inr (st\<lparr>sim_walker := move (sim_walker st) (fst ?d) (snd ?d)\<rparr>)"
    by (simp add: resolve_def)
  from sim_step_walker [OF assms(4) d c r] show ?thesis
    by simp
qed

lemma discrete_trace_walkers:
  assumes "obstacles pl = []" "portals pl = []"
    and "walker_type (sim_walker st) = DISCRETE_WALKER" "path (sim_walker st) \<noteq> []"
  shows "map sim_walker (sim_loop_states isect pl n_steps t0 inps step n st) =
         walk (sim_walker st) (drawn_moves inps step n)"
  using assms(3,4)
proof (induction n arbitrary: st step)
  case 0
  then show ?case by (simp add: drawn_moves_def)
next
  case (Suc n)
  from discrete_step_empty_plane [OF assms(1,2) Suc.prems] obtain s1 where
    s1: "sim_step isect pl n_steps t0 step (inps step) st = Inr s1"
    and w1: "walker_type (sim_walker s1) = DISCRETE_WALKER" "path (sim_walker s1) \<noteq> []"
    by blast
  have tr: "sim_loop_states isect pl n_steps t0 inps step (Suc n) st =
      s1 # sim_loop_states isect pl n_steps t0 inps (Suc step) n s1"
    using s1 assms(1,2)
    by (simp add: sim_loop_states.simps has_possible_moves_empty_plane)
  have dm: "drawn_moves inps step (Suc n) =
      discrete_draw (move_rnd (inps step)) # drawn_moves inps (Suc step) n"
  proof -
    have "[step ..< step + Suc n] = step # [Suc step ..< Suc step + n]"
      by (subst upt_rec) simp
    then show ?thesis
      by (simp add: drawn_moves_def del: upt_Suc)
  qed
  from discrete_step_walker [OF assms(1,2) Suc.prems(1) s1] Suc.IH [OF w1, of "Suc step"]
  show ?case
    by (simp add: tr dm)
qed

text \<open>The example run left, right, right, step by step.\<close>

lemma crossing_run_trace:
  "sim_loop axis_intersection Plane_init 5 0 (picks [3, 2, 2]) 0 3
     (start_run fresh_discrete initial_state) = Inr state_across"
  "crossing_run_states = [state_left, state_back_on_axis, state_across]"
proof -
  define inps where "inps = picks [3, 2, 2]"
  have p: "has_possible_moves axis_intersection w Plane_init angles = Inr True" for w angles
    by (rule has_possible_moves_empty_plane) (simp_all add: Plane_init_def)
  have s0: "sim_step axis_intersection Plane_init 5 0 0 (inps 0)
      (start_run fresh_discrete initial_state) = Inr state_left"
    unfolding inps_def
    by (simp add: crossing_example_defs example_defs step_defs probe_defs)
  have s1: "sim_step axis_intersection Plane_init 5 0 (Suc 0) (inps (Suc 0)) state_left =
      Inr state_back_on_axis"
    unfolding inps_def using crossing_example_run(2) by simp
  have s2: "sim_step axis_intersection Plane_init 5 0 (Suc (Suc 0)) (inps (Suc (Suc 0)))
      state_back_on_axis = Inr state_across"
    unfolding inps_def using crossing_example_run(3) by (simp add: numeral_2_eq_2)
  show "sim_loop axis_intersection Plane_init 5 0 (picks [3, 2, 2]) 0 3
     (start_run fresh_discrete initial_state) = Inr state_across"
    unfolding inps_def [symmetric]
    by (simp add: numeral_3_eq_3 p s0 s1 s2)
  show "crossing_run_states = [state_left, state_back_on_axis, state_across]"
    unfolding crossing_run_states_def inps_def [symmetric]
    by (simp add: numeral_3_eq_3 sim_loop_states.simps p s0 s1 s2)
qed
text \<open>
  Claim C5. A step that is executed appends exactly one statistics record, whose key is
  the 1-based step index and whose three averages are the run's sums of the three
  distance metrics at the end of the step divided by that index; and these sums are
  running sums: the step adds to each of them the metric of the new position when the
  position changed, and nothing otherwise. So the records of a run are, in order, those
  of its executed steps, and the averages of the record of a step are the cumulative sums
  of the contributions of all steps so far, divided by the step index. A run of a
  discrete walker of exactly 5 steps on a plane without obstacles and portals completes
  for all draws and produces exactly 5 records, with the keys 1 to 5, and their averages
  are the cumulative sums over the positions that the drawn moves lead to, divided by the
  step index.
\<close>

theorem per_step_statistics_records:
  "(sim_step isect pl n_steps t0 step inp st = Inr st' \<longrightarrow>
      simulation_stats st' = simulation_stats st @
        [(step + 1,
          \<lparr>avg_distance_from_x_axis = simulation_distance_from_x_axis st' / real (step + 1),
           avg_distance_from_y_axis = simulation_distance_from_y_axis st' / real (step + 1),
           avg_distance_from_origin = simulation_distance_from_origin st' / real (step + 1)\<rparr>)] \<and>
      simulation_distance_from_x_axis st' =
        simulation_distance_from_x_axis st +
        (if get_position (sim_walker st') \<noteq> get_position (sim_walker st)
         then distance_from_x_axis (sim_walker st') else 0) \<and>
      simulation_distance_from_y_axis st' =
        simulation_distance_from_y_axis st +
        (if get_position (sim_walker st') \<noteq> get_position (sim_walker st)
         then distance_from_y_axis (sim_walker st') else 0) \<and>
      simulation_distance_from_origin st' =
        simulation_distance_from_origin st +
        (if get_position (sim_walker st') \<noteq> get_position (sim_walker st)
         then get_distance (sim_walker st') else 0)) \<and>
   (sim_loop isect pl n_steps t0 inps 0 n (start_run w st0) = Inr st'' \<longrightarrow>
      simulation_stats st'' =
        map (cumulative_record w
               (map sim_walker
                  (sim_loop_states isect pl n_steps t0 inps 0 n (start_run w st0))))
          [0 ..< length (sim_loop_states isect pl n_steps t0 inps 0 n (start_run w st0))]) \<and>
   (arg_walker_type a = DISCRETE_WALKER \<and> arg_steps a = 5 \<and>
    arg_obstacles a = [] \<and> arg_portals a = [] \<longrightarrow>
      (\<exists>w5 stf rs stats.
         new_walker a = Inr w5 \<and>
         run_once isect (build_plane a) a enter inps5 i st0 = Inr stf \<and>
         last (multi_simulation_stats stf) = (i + 1, rs, stats) \<and>
         length stats = 5 \<and> map fst stats = [1, 2, 3, 4, 5] \<and>
         stats = map (cumulative_record w5 (walk w5 (drawn_moves (inps5 i) 0 5))) [0 ..< 5]))"
proof (intro conjI impI)
  assume "sim_step isect pl n_steps t0 step inp st = Inr st'"
  from sim_step_stats [OF this]
  show "simulation_stats st' = simulation_stats st @
        [(step + 1,
          \<lparr>avg_distance_from_x_axis = simulation_distance_from_x_axis st' / real (step + 1),
           avg_distance_from_y_axis = simulation_distance_from_y_axis st' / real (step + 1),
           avg_distance_from_origin = simulation_distance_from_origin st' / real (step + 1)\<rparr>)]"
    by (simp add: step_record_def)
next
  assume "sim_step isect pl n_steps t0 step inp st = Inr st'"
  then show "simulation_distance_from_x_axis st' =
        simulation_distance_from_x_axis st +
        (if get_position (sim_walker st') \<noteq> get_position (sim_walker st)
         then distance_from_x_axis (sim_walker st') else 0)"
    by (rule sim_step_sums(2))
next
  assume "sim_step isect pl n_steps t0 step inp st = Inr st'"
  then show "simulation_distance_from_y_axis st' =
        simulation_distance_from_y_axis st +
        (if get_position (sim_walker st') \<noteq> get_position (sim_walker st)
         then distance_from_y_axis (sim_walker st') else 0)"
    by (rule sim_step_sums(3))
next
  assume "sim_step isect pl n_steps t0 step inp st = Inr st'"
  then show "simulation_distance_from_origin st' =
        simulation_distance_from_origin st +
        (if get_position (sim_walker st') \<noteq> get_position (sim_walker st)
         then get_distance (sim_walker st') else 0)"
    by (rule sim_step_sums(1))
next
  assume "sim_loop isect pl n_steps t0 inps 0 n (start_run w st0) = Inr st''"
  then show "simulation_stats st'' =
        map (cumulative_record w
               (map sim_walker
                  (sim_loop_states isect pl n_steps t0 inps 0 n (start_run w st0))))
          [0 ..< length (sim_loop_states isect pl n_steps t0 inps 0 n (start_run w st0))]"
    by (rule run_records_cumulative)
next
  assume a: "arg_walker_type a = DISCRETE_WALKER \<and> arg_steps a = 5 \<and>
    arg_obstacles a = [] \<and> arg_portals a = []"
  then obtain w5 where w5: "new_walker a = Inr w5" "walker_type w5 = DISCRETE_WALKER"
    "path w5 = [(0, 0)]"
    using new_walker_discrete by blast
  let ?pl = "build_plane a"
  let ?s = "start_run w5 st0"
  let ?tr = "sim_loop_states isect ?pl (arg_n_steps a) (enter i) (inps5 i) 0 5 ?s"
  have pl: "obstacles ?pl = []" "portals ?pl = []"
    using a by (simp_all add: build_plane_empty Plane_init_def)
  have s: "walker_type (sim_walker ?s) = DISCRETE_WALKER" "path (sim_walker ?s) \<noteq> []"
    using w5 by (simp_all add: start_run_def)
  have sw: "sim_walker ?s = w5"
    by (simp add: start_run_def)
  from discrete_loop_empty_plane [OF pl s, of isect "arg_n_steps a" "enter i" "inps5 i" 0 5]
  obtain st5 where
    st5: "sim_loop isect ?pl (arg_n_steps a) (enter i) (inps5 i) 0 5 ?s = Inr st5"
    and len: "length ?tr = 5"
    by blast
  from sim_loop_stats [OF st5] have stats: "simulation_stats st5 = records_from 0 ?tr"
    by (simp add: start_run_def)
  from discrete_trace_walkers [OF pl s, of isect "arg_n_steps a" "enter i" "inps5 i" 0 5]
  have ws: "map sim_walker ?tr = walk w5 (drawn_moves (inps5 i) 0 5)"
    by (simp only: sw)
  from run_records_cumulative [OF st5]
  have cum: "simulation_stats st5 =
      map (cumulative_record w5 (walk w5 (drawn_moves (inps5 i) 0 5))) [0 ..< 5]"
    by (simp only: ws len)
  have run: "run_once isect ?pl a enter inps5 i st0 = Inr (finish_run i st5)"
    using w5(1) st5 a by (simp add: run_once_def)
  have l: "\<exists>rs. last (multi_simulation_stats (finish_run i st5)) =
      (i + 1, rs, simulation_stats st5)"
    by (simp add: finish_run_def Let_def)
  have n5: "length (simulation_stats st5) = 5"
    by (simp add: stats length_records_from len)
  have k5: "map fst (simulation_stats st5) = [1, 2, 3, 4, 5]"
    by (simp add: stats map_fst_records_from len upt_rec)
  from l obtain rs where
    rs: "last (multi_simulation_stats (finish_run i st5)) = (i + 1, rs, simulation_stats st5)" ..
  show "\<exists>w5 stf rs stats.
         new_walker a = Inr w5 \<and>
         run_once isect (build_plane a) a enter inps5 i st0 = Inr stf \<and>
         last (multi_simulation_stats stf) = (i + 1, rs, stats) \<and>
         length stats = 5 \<and> map fst stats = [1, 2, 3, 4, 5] \<and>
         stats = map (cumulative_record w5 (walk w5 (drawn_moves (inps5 i) 0 5))) [0 ..< 5]"
  proof (intro exI conjI)
    show "new_walker a = Inr w5" by (rule w5(1))
    show "run_once isect (build_plane a) a enter inps5 i st0 = Inr (finish_run i st5)"
      by (rule run)
    show "last (multi_simulation_stats (finish_run i st5)) = (i + 1, rs, simulation_stats st5)"
      by (rule rs)
    show "length (simulation_stats st5) = 5" by (rule n5)
    show "map fst (simulation_stats st5) = [1, 2, 3, 4, 5]" by (rule k5)
    show "simulation_stats st5 =
        map (cumulative_record w5 (walk w5 (drawn_moves (inps5 i) 0 5))) [0 ..< 5]"
      by (rule cum)
  qed
qed

theorem per_step_statistics_records_witness:
  "sim_step axis_intersection Plane_init 5 0 2 (picks [3, 2, 2] 2) state_back_on_axis =
     Inr state_across \<and>
   get_position (sim_walker state_back_on_axis) = (0, 0) \<and>
   get_position (sim_walker state_across) = (1, 0) \<and>
   simulation_distance_from_origin state_back_on_axis = 1 \<and>
   simulation_distance_from_origin state_across = 2 \<and>
   sim_loop axis_intersection Plane_init 5 0 (picks [3, 2, 2]) 0 3
     (start_run fresh_discrete initial_state) = Inr state_across \<and>
   map get_position (map sim_walker crossing_run_states) = [(-1, 0), (0, 0), (1, 0)] \<and>
   contributions get_distance fresh_discrete (map sim_walker crossing_run_states) =
     [1, 0, 1] \<and>
   simulation_stats state_across =
     map (cumulative_record fresh_discrete (map sim_walker crossing_run_states)) [0 ..< 3] \<and>
   simulation_stats state_across =
     [(1, \<lparr>avg_distance_from_x_axis = 0, avg_distance_from_y_axis = 1,
           avg_distance_from_origin = 1\<rparr>),
      (2, \<lparr>avg_distance_from_x_axis = 0, avg_distance_from_y_axis = 1 / 2,
           avg_distance_from_origin = 1 / 2\<rparr>),
      (3, \<lparr>avg_distance_from_x_axis = 0, avg_distance_from_y_axis = 2 / 3,
           avg_distance_from_origin = 2 / 3\<rparr>)] \<and>
   arg_walker_type five_step_args = DISCRETE_WALKER \<and> arg_steps five_step_args = 5 \<and>
   arg_obstacles five_step_args = [] \<and> arg_portals five_step_args = [] \<and>
   new_walker five_step_args = Inr fresh_discrete \<and>
   drawn_moves (picks [3, 2, 0, 0, 1]) 0 5 = [(-1, 0), (1, 0), (0, 1), (0, 1), (0, -1)] \<and>
   map get_position (walk fresh_discrete (drawn_moves (picks [3, 2, 0, 0, 1]) 0 5)) =
     [(-1, 0), (0, 0), (0, 1), (0, 2), (0, 1)] \<and>
   (\<exists>stf rs.
      run_once axis_intersection (build_plane five_step_args) five_step_args (\<lambda>i. 0)
        (\<lambda>i. picks [3, 2, 0, 0, 1]) 0 initial_state = Inr stf \<and>
      last (multi_simulation_stats stf) =
        (1, rs,
         [(1, \<lparr>avg_distance_from_x_axis = 0, avg_distance_from_y_axis = 1,
               avg_distance_from_origin = 1\<rparr>),
          (2, \<lparr>avg_distance_from_x_axis = 0, avg_distance_from_y_axis = 1 / 2,
               avg_distance_from_origin = 1 / 2\<rparr>),
          (3, \<lparr>avg_distance_from_x_axis = 1 / 3, avg_distance_from_y_axis = 1 / 3,
               avg_distance_from_origin = 2 / 3\<rparr>),
          (4, \<lparr>avg_distance_from_x_axis = 3 / 4, avg_distance_from_y_axis = 1 / 4,
               avg_distance_from_origin = 1\<rparr>),
          (5, \<lparr>avg_distance_from_x_axis = 4 / 5, avg_distance_from_y_axis = 1 / 5,
               avg_distance_from_origin = 1\<rparr>)]))"
proof -
  have h1: "sim_step axis_intersection Plane_init 5 0 2 (picks [3, 2, 2] 2) state_back_on_axis =
     Inr state_across"
    by (rule crossing_example_run(3))
  have h2: "sim_loop axis_intersection Plane_init 5 0 (picks [3, 2, 2]) 0 3
     (start_run fresh_discrete initial_state) = Inr state_across"
    by (rule crossing_run_trace(1))
  have h3: "arg_walker_type five_step_args = DISCRETE_WALKER \<and> arg_steps five_step_args = 5 \<and>
    arg_obstacles five_step_args = [] \<and> arg_portals five_step_args = []"
    by (simp add: five_step_args_def DISCRETE_WALKER_def)
  note T = per_step_statistics_records [where isect = axis_intersection and pl = Plane_init
      and n_steps = 5 and ?t0.0 = 0 and step = 2 and inp = "picks [3, 2, 2] 2"
      and st = state_back_on_axis and st' = state_across and inps = "picks [3, 2, 2]"
      and n = 3 and w = fresh_discrete and ?st0.0 = initial_state and st'' = state_across
      and a = five_step_args and enter = "\<lambda>i. 0" and ?inps5.0 = "\<lambda>i. picks [3, 2, 0, 0, 1]"
      and i = 0, folded crossing_run_states_def]
  have p: "get_position (sim_walker state_back_on_axis) = (0, 0)"
    "get_position (sim_walker state_across) = (1, 0)"
    "simulation_distance_from_origin state_back_on_axis = 1"
    by (simp_all add: crossing_example_defs example_defs step_defs)
  from T [THEN conjunct1, THEN mp, OF h1] p
  have o2: "simulation_distance_from_origin state_across = 2"
    by (simp add: get_distance_def crossing_example_defs example_defs step_defs)
  have len: "length crossing_run_states = 3"
    by (simp add: crossing_run_trace(2))
  from T [THEN conjunct2, THEN conjunct1, THEN mp, OF h2]
  have recs: "simulation_stats state_across =
     map (cumulative_record fresh_discrete (map sim_walker crossing_run_states)) [0 ..< 3]"
    by (simp only: len)
  have pos: "map get_position (map sim_walker crossing_run_states) = [(-1, 0), (0, 0), (1, 0)]"
    by (simp add: crossing_run_trace(2) crossing_example_defs example_defs step_defs)
  have con: "contributions get_distance fresh_discrete (map sim_walker crossing_run_states) =
     [1, 0, 1]"
    by (simp add: crossing_run_trace(2) crossing_example_defs example_defs step_defs)
  have vals: "simulation_stats state_across =
     [(1, \<lparr>avg_distance_from_x_axis = 0, avg_distance_from_y_axis = 1,
           avg_distance_from_origin = 1\<rparr>),
      (2, \<lparr>avg_distance_from_x_axis = 0, avg_distance_from_y_axis = 1 / 2,
           avg_distance_from_origin = 1 / 2\<rparr>),
      (3, \<lparr>avg_distance_from_x_axis = 0, avg_distance_from_y_axis = 2 / 3,
           avg_distance_from_origin = 2 / 3\<rparr>)]"
    unfolding recs
    by (simp add: crossing_run_trace(2) cumulative_record_def cumulative_sum_def
        distance_from_x_axis_def distance_from_y_axis_def upt_rec
        crossing_example_defs example_defs step_defs)
  have nw: "new_walker five_step_args = Inr fresh_discrete"
    by (simp add: five_step_args_def new_walker_def Walker_init_def
        ACCEPTABLE_WALKER_TYPES_def example_defs)
  have dm: "drawn_moves (picks [3, 2, 0, 0, 1]) 0 5 = [(-1, 0), (1, 0), (0, 1), (0, 1), (0, -1)]"
    by (simp add: drawn_moves_def discrete_draw_def random_choice_def picks_def upt_rec)
  have wp: "map get_position (walk fresh_discrete (drawn_moves (picks [3, 2, 0, 0, 1]) 0 5)) =
     [(-1, 0), (0, 0), (0, 1), (0, 2), (0, 1)]"
    unfolding dm by (simp add: example_defs step_defs)
  from T [THEN conjunct2, THEN conjunct2, THEN mp, OF h3] nw
  obtain stf rs stats where
    run: "run_once axis_intersection (build_plane five_step_args) five_step_args (\<lambda>i. 0)
        (\<lambda>i. picks [3, 2, 0, 0, 1]) 0 initial_state = Inr stf"
    and lst: "last (multi_simulation_stats stf) = (0 + 1, rs, stats)"
    and st: "stats = map (cumulative_record fresh_discrete
        (walk fresh_discrete (drawn_moves (picks [3, 2, 0, 0, 1]) 0 5))) [0 ..< 5]"
    by auto
  have five: "stats =
         [(1, \<lparr>avg_distance_from_x_axis = 0, avg_distance_from_y_axis = 1,
               avg_distance_from_origin = 1\<rparr>),
          (2, \<lparr>avg_distance_from_x_axis = 0, avg_distance_from_y_axis = 1 / 2,
               avg_distance_from_origin = 1 / 2\<rparr>),
          (3, \<lparr>avg_distance_from_x_axis = 1 / 3, avg_distance_from_y_axis = 1 / 3,
               avg_distance_from_origin = 2 / 3\<rparr>),
          (4, \<lparr>avg_distance_from_x_axis = 3 / 4, avg_distance_from_y_axis = 1 / 4,
               avg_distance_from_origin = 1\<rparr>),
          (5, \<lparr>avg_distance_from_x_axis = 4 / 5, avg_distance_from_y_axis = 1 / 5,
               avg_distance_from_origin = 1\<rparr>)]"
    unfolding st dm
    by (simp add: cumulative_record_def cumulative_sum_def distance_from_x_axis_def
        distance_from_y_axis_def upt_rec example_defs step_defs)
  from run lst five have ex: "\<exists>stf rs.
      run_once axis_intersection (build_plane five_step_args) five_step_args (\<lambda>i. 0)
        (\<lambda>i. picks [3, 2, 0, 0, 1]) 0 initial_state = Inr stf \<and>
      last (multi_simulation_stats stf) =
        (1, rs,
         [(1, \<lparr>avg_distance_from_x_axis = 0, avg_distance_from_y_axis = 1,
               avg_distance_from_origin = 1\<rparr>),
          (2, \<lparr>avg_distance_from_x_axis = 0, avg_distance_from_y_axis = 1 / 2,
               avg_distance_from_origin = 1 / 2\<rparr>),
          (3, \<lparr>avg_distance_from_x_axis = 1 / 3, avg_distance_from_y_axis = 1 / 3,
               avg_distance_from_origin = 2 / 3\<rparr>),
          (4, \<lparr>avg_distance_from_x_axis = 3 / 4, avg_distance_from_y_axis = 1 / 4,
               avg_distance_from_origin = 1\<rparr>),
          (5, \<lparr>avg_distance_from_x_axis = 4 / 5, avg_distance_from_y_axis = 1 / 5,
               avg_distance_from_origin = 1\<rparr>)])"
    by auto
  from h1 p o2 h2 pos con recs vals h3 nw dm wp ex show ?thesis
    by (intro conjI) (simp_all only: simp_thms)
qed

end
